theory Spec2Isabelle
  imports Main
begin

section \<open>The time-sync script and the world it talks to\<close>

text \<open>
  The development embeds \<^verbatim>\<open>time_sync.py\<close>. The script is a single-threaded sequence of
  calls to three outside parties: the terminals (through the \<^verbatim>\<open>zk\<close> client), the chat
  webhook (through \<^verbatim>\<open>requests.post\<close>) and the status file (through \<^verbatim>\<open>PickleDB\<close>).
  The outside parties are a \<open>world\<close> value that every function receives and returns:
  \<^item> what the outside answers is scripted, one list per kind of call; a call takes the
    head of its list. A list that has run out answers like a dead network (the call
    raises); the wall clock then reads \<open>0\<close>, and a save of the status file then goes
    through;
  \<^item> what the script does to the outside is appended to \<open>events\<close>, oldest first;
  \<^item> \<open>db\<close> is the dictionary held by the \<^verbatim>\<open>PickleDB\<close> object \<^verbatim>\<open>status\<close>.

  Points in time (\<^verbatim>\<open>datetime\<close>) are integers counting microseconds, so the difference of
  two of them is exact; \<^verbatim>\<open>total_seconds()\<close> of a difference \<open>d\<close> is \<open>d / 10^6\<close> and the
  comparisons of the source against a number of seconds are written against that number
  times \<open>10^6\<close> (the tolerance is taken to be a whole number of seconds, as its default
  is). Logging and printing are left out, and so are the two counters of
  \<^verbatim>\<open>sync_all_devices\<close> that only feed a log line.

  Only exceptions below \<^verbatim>\<open>Exception\<close> are modelled (what \<^verbatim>\<open>except Exception\<close> catches).
\<close>

subsection \<open>Configuration\<close>

record device =
  device_id :: string
  ip :: string

text \<open>
  \<^verbatim>\<open>local_config\<close> is a module; an attribute that is absent is \<open>None\<close> here, and the
  constants of the script read it with the default of their \<^verbatim>\<open>getattr\<close>.
\<close>

record local_config =
  devices :: "device list"
  attr_TIME_TOLERANCE_SECONDS :: "int option"
  attr_ENABLE_TIME_SYNC :: "bool option"
  attr_GOOGLE_CHAT_WEBHOOK :: "string option"
  attr_ENABLE_CHAT_NOTIFICATIONS :: "bool option"

definition TIME_TOLERANCE_SECONDS :: "local_config \<Rightarrow> int" where
  "TIME_TOLERANCE_SECONDS cfg =
     (case attr_TIME_TOLERANCE_SECONDS cfg of None \<Rightarrow> 60 | Some s \<Rightarrow> s)"

definition ENABLE_TIME_SYNC :: "local_config \<Rightarrow> bool" where
  "ENABLE_TIME_SYNC cfg = (case attr_ENABLE_TIME_SYNC cfg of None \<Rightarrow> True | Some b \<Rightarrow> b)"

definition GOOGLE_CHAT_WEBHOOK :: "local_config \<Rightarrow> string option" where
  "GOOGLE_CHAT_WEBHOOK cfg = attr_GOOGLE_CHAT_WEBHOOK cfg"

definition ENABLE_CHAT_NOTIFICATIONS :: "local_config \<Rightarrow> bool" where
  "ENABLE_CHAT_NOTIFICATIONS cfg =
     (case attr_ENABLE_CHAT_NOTIFICATIONS cfg of None \<Rightarrow> True | Some b \<Rightarrow> b)"

text \<open>Python's truth value of an optional string: \<open>None\<close> and the empty string are false.\<close>

definition truthy :: "string option \<Rightarrow> bool" where
  "truthy s = (case s of None \<Rightarrow> False | Some t \<Rightarrow> t \<noteq> [])"

text \<open>How an f-string renders an optional string.\<close>

definition text_of :: "string option \<Rightarrow> string" where
  "text_of s = (case s of None \<Rightarrow> ''None'' | Some t \<Rightarrow> t)"

text \<open>The tolerance and the threshold of the "significant correction", in microseconds.\<close>

definition tolerance_us :: "local_config \<Rightarrow> int" where
  "tolerance_us cfg = TIME_TOLERANCE_SECONDS cfg * 1000000"

definition significant_us :: int where
  "significant_us = 300 * 1000000"

subsection \<open>The world\<close>

datatype 'a outcome = Raises | Returns 'a

text \<open>
  A value of the status dictionary: a string, or the rendering \<^verbatim>\<open>str(datetime)\<close> of a
  point in time, kept as that point.
\<close>

datatype db_value = Str string | DateStr int

text \<open>The three status texts the script passes to the notifier (their emoji left out).\<close>

datatype alert = BackOnline | Offline | TimeSynchronized int

text \<open>
  The text posted to the webhook: with the device line when both the id and the address
  are given and non-empty, without it otherwise; then the time stamp and the status.
\<close>

datatype payload = DeviceAlert string string int alert | SystemAlert int alert

datatype event =
    Notify alert "string option" "string option"
  | HttpPost string payload
  | Connect string nat
  | Disconnect string
  | GetTime string
  | DisableDevice string
  | SetTime string int
  | EnableDevice string
  | Sleep nat
  | StoreSet string db_value
  | StoreSave

record world =
  db :: "string \<rightharpoonup> db_value"
  clock :: "int list"
  connects :: "bool list"
  disconnects :: "bool list"
  get_times :: "int option outcome list"
  commands :: "bool outcome list"
  posts :: "int outcome list"
  saves :: "bool list"
  events :: "event list"

definition emit :: "event \<Rightarrow> world \<Rightarrow> world" where
  "emit e w = w\<lparr>events := events w @ [e]\<rparr>"

text \<open>\<^verbatim>\<open>datetime.datetime.now()\<close>\<close>

definition now :: "world \<Rightarrow> int \<times> world" where
  "now w = (case clock w of [] \<Rightarrow> (0, w) | t # ts \<Rightarrow> (t, w\<lparr>clock := ts\<rparr>))"

text \<open>\<^verbatim>\<open>time.sleep(n)\<close>\<close>

definition sleep :: "nat \<Rightarrow> world \<Rightarrow> world" where
  "sleep n w = emit (Sleep n) w"

subsubsection \<open>The status store (PickleDB)\<close>

text \<open>
  \<^verbatim>\<open>get\<close> is \<^verbatim>\<open>dict.get\<close>: \<open>None\<close> for a key that is absent. \<^verbatim>\<open>set\<close> assigns in the
  dictionary. Both work on the dictionary in memory with a string key and cannot raise.
  \<^verbatim>\<open>save\<close> rewrites the file from the dictionary; it is file I/O and may raise (a
  directory that is gone, a full disk). The script of \<open>saves\<close> says which saves go through
  (\<open>True\<close>) and which raise. What reaches the file is not modelled further: \<open>db\<close> is what
  \<^verbatim>\<open>status.get\<close> reads, \<open>StoreSave\<close> records that a save was called.
\<close>

definition status_get :: "string \<Rightarrow> world \<Rightarrow> db_value option" where
  "status_get key w = db w key"

definition status_set :: "string \<Rightarrow> db_value \<Rightarrow> world \<Rightarrow> world" where
  "status_set key v w = emit (StoreSet key v) (w\<lparr>db := (db w)(key \<mapsto> v)\<rparr>)"

definition status_save :: "world \<Rightarrow> unit outcome \<times> world" where
  "status_save w =
     (let w1 = emit StoreSave w in
      case saves w1 of
        [] \<Rightarrow> (Returns (), w1)
      | ok # rest \<Rightarrow> (if ok then Returns () else Raises, w1\<lparr>saves := rest\<rparr>))"

subsubsection \<open>The device client (zk)\<close>

text \<open>\<^verbatim>\<open>ZK(ip, port=4370, timeout=t).connect()\<close>: a session, or an exception.\<close>

definition zk_connect :: "string \<Rightarrow> nat \<Rightarrow> world \<Rightarrow> unit outcome \<times> world" where
  "zk_connect addr t w =
     (let w1 = emit (Connect addr t) w in
      case connects w1 of
        [] \<Rightarrow> (Raises, w1)
      | ok # rest \<Rightarrow> (if ok then Returns () else Raises, w1\<lparr>connects := rest\<rparr>))"

definition conn_disconnect :: "string \<Rightarrow> world \<Rightarrow> unit outcome \<times> world" where
  "conn_disconnect addr w =
     (let w1 = emit (Disconnect addr) w in
      case disconnects w1 of
        [] \<Rightarrow> (Raises, w1)
      | ok # rest \<Rightarrow> (if ok then Returns () else Raises, w1\<lparr>disconnects := rest\<rparr>))"

definition conn_get_time :: "string \<Rightarrow> world \<Rightarrow> int option outcome \<times> world" where
  "conn_get_time addr w =
     (let w1 = emit (GetTime addr) w in
      case get_times w1 of
        [] \<Rightarrow> (Raises, w1)
      | r # rest \<Rightarrow> (r, w1\<lparr>get_times := rest\<rparr>))"

text \<open>
  \<^verbatim>\<open>disable_device\<close>, \<^verbatim>\<open>set_time\<close> and \<^verbatim>\<open>enable_device\<close> share one script of answers:
  each returns a flag or raises.
\<close>

definition conn_command :: "event \<Rightarrow> world \<Rightarrow> bool outcome \<times> world" where
  "conn_command e w =
     (let w1 = emit e w in
      case commands w1 of
        [] \<Rightarrow> (Raises, w1)
      | r # rest \<Rightarrow> (r, w1\<lparr>commands := rest\<rparr>))"

definition conn_disable_device :: "string \<Rightarrow> world \<Rightarrow> bool outcome \<times> world" where
  "conn_disable_device addr w = conn_command (DisableDevice addr) w"

definition conn_set_time :: "string \<Rightarrow> int \<Rightarrow> world \<Rightarrow> bool outcome \<times> world" where
  "conn_set_time addr t w = conn_command (SetTime addr t) w"

definition conn_enable_device :: "string \<Rightarrow> world \<Rightarrow> bool outcome \<times> world" where
  "conn_enable_device addr w = conn_command (EnableDevice addr) w"

subsubsection \<open>The webhook (requests)\<close>

text \<open>\<^verbatim>\<open>requests.post(url, json=payload, headers=..., timeout=10)\<close>: a status code, or an
  exception.\<close>

definition requests_post :: "string \<Rightarrow> payload \<Rightarrow> world \<Rightarrow> int outcome \<times> world" where
  "requests_post url p w =
     (let w1 = emit (HttpPost url p) w in
      case posts w1 of
        [] \<Rightarrow> (Raises, w1)
      | r # rest \<Rightarrow> (r, w1\<lparr>posts := rest\<rparr>))"

subsection \<open>The notifier\<close>

text \<open>
  \<^verbatim>\<open>send_google_chat_message(message, device_id=None, device_ip=None)\<close>. The call itself is
  recorded as \<open>Notify\<close>, so that an attempt is visible also when nothing is posted. The
  second test of the webhook in the source cannot be reached and is kept. The whole body
  after the two tests is in a \<^verbatim>\<open>try\<close> whose handler returns \<^verbatim>\<open>False\<close>.
\<close>

definition send_google_chat_message ::
  "local_config \<Rightarrow> alert \<Rightarrow> string option \<Rightarrow> string option \<Rightarrow> world \<Rightarrow> bool \<times> world" where
  "send_google_chat_message cfg message dev_id dev_ip w =
     (let w0 = emit (Notify message dev_id dev_ip) w in
      if \<not> ENABLE_CHAT_NOTIFICATIONS cfg \<or> \<not> truthy (GOOGLE_CHAT_WEBHOOK cfg) then (False, w0)
      else if \<not> truthy (GOOGLE_CHAT_WEBHOOK cfg) then (False, w0)
      else
        let (timestamp, w1) = now w0;
            full_message =
              (if truthy dev_id \<and> truthy dev_ip
               then DeviceAlert (text_of dev_id) (text_of dev_ip) timestamp message
               else SystemAlert timestamp message)
        in case requests_post (text_of (GOOGLE_CHAT_WEBHOOK cfg)) full_message w1 of
             (Raises, w2) \<Rightarrow> (False, w2)
           | (Returns status_code, w2) \<Rightarrow>
               if status_code = 200 then (True, w2) else (False, w2))"

subsection \<open>Reachability and the stored status\<close>

definition status_key :: "device \<Rightarrow> string" where
  "status_key dev = device_id dev @ ''_online_status''"

text \<open>
  The handler of the \<^verbatim>\<open>try\<close> in \<^verbatim>\<open>check_device_online_status\<close> ("Device is offline"). An
  exception of its save leaves the function.
\<close>

definition device_is_offline ::
  "local_config \<Rightarrow> device \<Rightarrow> world \<Rightarrow> bool outcome \<times> world" where
  "device_is_offline cfg dev w =
     (let previous_status = status_get (status_key dev) w in
      if previous_status \<noteq> Some (Str ''offline'') then
        let (_, w1) = send_google_chat_message cfg Offline
                        (Some (device_id dev)) (Some (ip dev)) w;
            w2 = status_set (status_key dev) (Str ''offline'') w1
        in case status_save w2 of
             (Raises, w3) \<Rightarrow> (Raises, w3)
           | (Returns _, w3) \<Rightarrow> (Returns False, w3)
      else (Returns False, w))"

text \<open>
  The rest of the \<^verbatim>\<open>try\<close> block once the probe has gone through ("Device is online"). It
  is still inside the \<^verbatim>\<open>try\<close>: an exception of its save is an outcome here and is sent to
  the handler by the function below.
\<close>

definition device_is_online ::
  "local_config \<Rightarrow> device \<Rightarrow> world \<Rightarrow> bool outcome \<times> world" where
  "device_is_online cfg dev w =
     (let previous_status = status_get (status_key dev) w in
      if previous_status = Some (Str ''offline'') \<or> previous_status = None then
        let w1 = (if previous_status = Some (Str ''offline'')
                  then snd (send_google_chat_message cfg BackOnline
                              (Some (device_id dev)) (Some (ip dev)) w)
                  else w);
            w2 = status_set (status_key dev) (Str ''online'') w1
        in case status_save w2 of
             (Raises, w3) \<Rightarrow> (Raises, w3)
           | (Returns _, w3) \<Rightarrow> (Returns True, w3)
      else (Returns True, w))"

text \<open>
  \<^verbatim>\<open>check_device_online_status(device)\<close>: connect with a timeout of 5 seconds and
  disconnect. The one \<^verbatim>\<open>try\<close> spans the probe and the bookkeeping after it, so the
  handler is entered by an exception of the connect, of the disconnect, and of the save
  of a device that answered. The function returns a truth value or, when the save of the
  handler raises, leaves with that exception.
\<close>

definition check_device_online_status ::
  "local_config \<Rightarrow> device \<Rightarrow> world \<Rightarrow> bool outcome \<times> world" where
  "check_device_online_status cfg dev w =
     (case zk_connect (ip dev) 5 w of
        (Raises, w1) \<Rightarrow> device_is_offline cfg dev w1
      | (Returns _, w1) \<Rightarrow>
          (case conn_disconnect (ip dev) w1 of
             (Raises, w2) \<Rightarrow> device_is_offline cfg dev w2
           | (Returns _, w2) \<Rightarrow>
               (case device_is_online cfg dev w2 of
                  (Raises, w3) \<Rightarrow> device_is_offline cfg dev w3
                | (Returns reachable, w3) \<Rightarrow> (Returns reachable, w3))))"

subsection \<open>Reading and writing a device clock\<close>

text \<open>
  \<^verbatim>\<open>get_device_time(ip)\<close>: connect with a timeout of 30 seconds and read the clock. The
  handler re-raises, and the \<^verbatim>\<open>finally\<close> block disconnects when a session was opened;
  an exception of the disconnect leaves the function in place of a result.
\<close>

definition get_device_time :: "string \<Rightarrow> world \<Rightarrow> int option outcome \<times> world" where
  "get_device_time addr w =
     (case zk_connect addr 30 w of
        (Raises, w1) \<Rightarrow> (Raises, w1)
      | (Returns _, w1) \<Rightarrow>
          (case conn_get_time addr w1 of
             (Raises, w2) \<Rightarrow> (Raises, snd (conn_disconnect addr w2))
           | (Returns device_time, w2) \<Rightarrow>
               (case conn_disconnect addr w2 of
                  (Raises, w3) \<Rightarrow> (Raises, w3)
                | (Returns _, w3) \<Rightarrow> (Returns device_time, w3))))"

text \<open>
  \<^verbatim>\<open>set_device_time(ip, new_time)\<close>: disable the device, set its clock, enable it. The
  three flags are only logged; an exception of any step skips the steps after it, is
  re-raised by the handler, and the \<^verbatim>\<open>finally\<close> block disconnects as above.
\<close>

definition set_device_time :: "string \<Rightarrow> int \<Rightarrow> world \<Rightarrow> bool outcome \<times> world" where
  "set_device_time addr new_time w =
     (case zk_connect addr 30 w of
        (Raises, w1) \<Rightarrow> (Raises, w1)
      | (Returns _, w1) \<Rightarrow>
          (case conn_disable_device addr w1 of
             (Raises, w2) \<Rightarrow> (Raises, snd (conn_disconnect addr w2))
           | (Returns disable_result, w2) \<Rightarrow>
               (case conn_set_time addr new_time w2 of
                  (Raises, w3) \<Rightarrow> (Raises, snd (conn_disconnect addr w3))
                | (Returns set_result, w3) \<Rightarrow>
                    (case conn_enable_device addr w3 of
                       (Raises, w4) \<Rightarrow> (Raises, snd (conn_disconnect addr w4))
                     | (Returns enable_result, w4) \<Rightarrow>
                         (case conn_disconnect addr w4 of
                            (Raises, w5) \<Rightarrow> (Raises, w5)
                          | (Returns _, w5) \<Rightarrow> (Returns True, w5))))))"

subsection \<open>The sync engine\<close>

text \<open>
  \<^verbatim>\<open>sync_device_time(device)\<close>. The value returned is \<open>Some True\<close>, \<open>Some False\<close>, or
  \<open>None\<close> where the source runs off the end of the function (the second reading of the
  clock came back empty). The reachability check stands before the \<^verbatim>\<open>try\<close>, so an
  exception of it leaves the function; every exception after it is caught by the one
  handler, which returns \<^verbatim>\<open>False\<close>.
\<close>

definition sync_device_time ::
  "local_config \<Rightarrow> device \<Rightarrow> world \<Rightarrow> bool option outcome \<times> world" where
  "sync_device_time cfg dev w =
     (case check_device_online_status cfg dev w of
        (Raises, w0) \<Rightarrow> (Raises, w0)
      | (Returns False, w0) \<Rightarrow> (Returns (Some False), w0)
      | (Returns True, w0) \<Rightarrow>
          let (system_time, w1) = now w0 in
          case get_device_time (ip dev) w1 of
            (Raises, w2) \<Rightarrow> (Returns (Some False), w2)
          | (Returns None, w2) \<Rightarrow> (Returns (Some False), w2)
          | (Returns (Some device_time), w2) \<Rightarrow>
              let time_diff = \<bar>system_time - device_time\<bar> in
              if time_diff > tolerance_us cfg then
                (case set_device_time (ip dev) system_time w2 of
                   (Raises, w3) \<Rightarrow> (Returns (Some False), w3)
                 | (Returns False, w3) \<Rightarrow> (Returns (Some False), w3)
                 | (Returns True, w3) \<Rightarrow>
                     let w4 = (if time_diff > significant_us
                               then snd (send_google_chat_message cfg (TimeSynchronized time_diff)
                                           (Some (device_id dev)) (Some (ip dev)) w3)
                               else w3);
                         w5 = sleep 2 w4
                     in case get_device_time (ip dev) w5 of
                          (Raises, w6) \<Rightarrow> (Returns (Some False), w6)
                        | (Returns None, w6) \<Rightarrow> (Returns None, w6)
                        | (Returns (Some updated_device_time), w6) \<Rightarrow>
                            let verification_diff = \<bar>system_time - updated_device_time\<bar> in
                            if verification_diff \<le> tolerance_us cfg then (Returns (Some True), w6)
                            else (Returns (Some False), w6))
              else (Returns (Some True), w2))"

subsection \<open>One pass over the fleet\<close>

definition last_time_sync_key :: "device \<Rightarrow> string" where
  "last_time_sync_key dev = device_id dev @ ''_last_time_sync''"

text \<open>
  The body of the loop of \<^verbatim>\<open>sync_all_devices\<close>, for one device. All of it is inside a
  \<^verbatim>\<open>try\<close> whose handler logs and goes on to the next device: an exception of either check
  or of the save ends the turn where it was raised.
\<close>

definition sync_all_devices_body :: "local_config \<Rightarrow> device \<Rightarrow> world \<Rightarrow> world" where
  "sync_all_devices_body cfg dev w =
     (case check_device_online_status cfg dev w of
        (Raises, w1) \<Rightarrow> w1
      | (Returns False, w1) \<Rightarrow> w1
      | (Returns True, w1) \<Rightarrow>
          (case sync_device_time cfg dev w1 of
             (Returns (Some True), w2) \<Rightarrow>
               let (t, w3) = now w2;
                   w4 = status_set (last_time_sync_key dev) (DateStr t) w3
               in snd (status_save w4)
           | (_, w2) \<Rightarrow> w2))"

text \<open>
  \<^verbatim>\<open>sync_all_devices()\<close>. The write of \<^verbatim>\<open>last_time_sync_run\<close> stands after the loop and
  outside any \<^verbatim>\<open>try\<close>: an exception of its save leaves the function.
\<close>

definition sync_all_devices :: "local_config \<Rightarrow> world \<Rightarrow> unit outcome \<times> world" where
  "sync_all_devices cfg w =
     (if \<not> ENABLE_TIME_SYNC cfg then (Returns (), w)
      else
        let w1 = fold (sync_all_devices_body cfg) (devices cfg) w;
            (t, w2) = now w1;
            w3 = status_set ''last_time_sync_run'' (DateStr t) w2
        in status_save w3)"

subsection \<open>The \<^verbatim>\<open>check\<close> mode of the command line\<close>

text \<open>
  The body of the loop under \<^verbatim>\<open>sys.argv[1] == "check"\<close>, for one device: the reachability
  check, then for a device that answered one reading of its clock and one of the wall
  clock. An exception of the check or of the reading is caught by the handler of the
  loop, which prints.
\<close>

definition main_check_body :: "local_config \<Rightarrow> device \<Rightarrow> world \<Rightarrow> world" where
  "main_check_body cfg dev w =
     (case check_device_online_status cfg dev w of
        (Raises, w1) \<Rightarrow> w1
      | (Returns False, w1) \<Rightarrow> w1
      | (Returns True, w1) \<Rightarrow>
          (case get_device_time (ip dev) w1 of
             (Raises, w2) \<Rightarrow> w2
           | (Returns device_time, w2) \<Rightarrow> snd (now w2)))"

definition main_check :: "local_config \<Rightarrow> world \<Rightarrow> world" where
  "main_check cfg w = fold (main_check_body cfg) (devices cfg) w"

section \<open>Observations on a run\<close>

text \<open>
  The claims speak of what a call did: which notifications it attempted, which keys of the
  status store it wrote, which commands it sent to a device. These are read off the
  events that the call appended.
\<close>

fun is_notify :: "event \<Rightarrow> bool" where
  "is_notify (Notify _ _ _) = True"
| "is_notify _ = False"

fun is_http_post :: "event \<Rightarrow> bool" where
  "is_http_post (HttpPost _ _) = True"
| "is_http_post _ = False"

fun is_device_write :: "event \<Rightarrow> bool" where
  "is_device_write (DisableDevice _) = True"
| "is_device_write (SetTime _ _) = True"
| "is_device_write (EnableDevice _) = True"
| "is_device_write _ = False"

fun written_key :: "event \<Rightarrow> string option" where
  "written_key (StoreSet k _) = Some k"
| "written_key _ = None"

definition notifications :: "world \<Rightarrow> event list" where
  "notifications w = filter is_notify (events w)"

definition new_events :: "world \<Rightarrow> world \<Rightarrow> event list" where
  "new_events w w' = drop (length (events w)) (events w')"

definition keys_written :: "world \<Rightarrow> world \<Rightarrow> string list" where
  "keys_written w w' = List.map_filter written_key (new_events w w')"

fun replay_event :: "event \<Rightarrow> (string \<rightharpoonup> db_value) \<Rightarrow> (string \<rightharpoonup> db_value)" where
  "replay_event (StoreSet k v) m = m(k \<mapsto> v)"
| "replay_event _ m = m"

definition replay :: "event list \<Rightarrow> (string \<rightharpoonup> db_value) \<Rightarrow> (string \<rightharpoonup> db_value)" where
  "replay es m = fold replay_event es m"

definition step :: "(event \<Rightarrow> bool) \<Rightarrow> world \<Rightarrow> world \<Rightarrow> bool" where
  "step P w w' \<longleftrightarrow>
     events w' = events w @ new_events w w' \<and> list_all P (new_events w w') \<and>
     db w' = replay (new_events w w') (db w)"

text \<open>The events a reachability check may append for a device.\<close>

definition check_event :: "device \<Rightarrow> event \<Rightarrow> bool" where
  "check_event dev e \<longleftrightarrow>
     e = Connect (ip dev) 5 \<or> e = Disconnect (ip dev) \<or> is_notify e \<or> is_http_post e \<or>
     e = StoreSet (status_key dev) (Str ''online'') \<or>
     e = StoreSet (status_key dev) (Str ''offline'') \<or> e = StoreSave"

text \<open>
  The two calls at the head of \<^verbatim>\<open>check_device_online_status\<close> without what follows
  them: the connect and, when that went through, the disconnect. A device is found
  unreachable when one of the two raises.
\<close>

definition probe :: "device \<Rightarrow> world \<Rightarrow> unit outcome \<times> world" where
  "probe dev w =
     (case zk_connect (ip dev) 5 w of
        (Raises, w1) \<Rightarrow> (Raises, w1)
      | (Returns _, w1) \<Rightarrow> conn_disconnect (ip dev) w1)"

text \<open>
  What the notifier posts for a message about a device, at the time \<open>t\<close> it reads from
  the clock.
\<close>

definition device_payload :: "device \<Rightarrow> int \<Rightarrow> alert \<Rightarrow> payload" where
  "device_payload dev t m =
     (if device_id dev \<noteq> [] \<and> ip dev \<noteq> [] then DeviceAlert (device_id dev) (ip dev) t m
      else SystemAlert t m)"

text \<open>
  The events of one reading of a device clock, of one correction of it, of
  \<^verbatim>\<open>sync_device_time\<close> as a whole, and of one turn of the loop of \<^verbatim>\<open>sync_all_devices\<close>.
\<close>

definition read_event :: "string \<Rightarrow> event \<Rightarrow> bool" where
  "read_event addr e \<longleftrightarrow> e = Connect addr 30 \<or> e = GetTime addr \<or> e = Disconnect addr"

definition write_event :: "string \<Rightarrow> int \<Rightarrow> event \<Rightarrow> bool" where
  "write_event addr t e \<longleftrightarrow>
     e = Connect addr 30 \<or> e = DisableDevice addr \<or> e = SetTime addr t \<or>
     e = EnableDevice addr \<or> e = Disconnect addr"

definition sync_event :: "device \<Rightarrow> event \<Rightarrow> bool" where
  "sync_event dev e \<longleftrightarrow>
     check_event dev e \<or> read_event (ip dev) e \<or> (\<exists>t. write_event (ip dev) t e) \<or>
     e = Sleep 2"

definition body_event :: "device \<Rightarrow> event \<Rightarrow> bool" where
  "body_event dev e \<longleftrightarrow>
     sync_event dev e \<or> (\<exists>t. e = StoreSet (last_time_sync_key dev) (DateStr t))"

text \<open>The events of one turn of the loop of the \<^verbatim>\<open>check\<close> mode.\<close>

definition main_check_event :: "device \<Rightarrow> event \<Rightarrow> bool" where
  "main_check_event dev e \<longleftrightarrow> check_event dev e \<or> read_event (ip dev) e"

subsection \<open>A concrete site\<close>

text \<open>
  One terminal, a configuration that sets the webhook and nothing else (so every default
  of the script applies), and a world in which nothing has happened yet and nothing
  answers. The instances below are built from these by record update.
\<close>

definition terminal :: device where
  "terminal = \<lparr>device_id = ''1'', ip = ''10.0.0.7''\<rparr>"

definition site_config :: local_config where
  "site_config = \<lparr>devices = [terminal], attr_TIME_TOLERANCE_SECONDS = None,
     attr_ENABLE_TIME_SYNC = None, attr_GOOGLE_CHAT_WEBHOOK = Some ''https://chat.test/hook'',
     attr_ENABLE_CHAT_NOTIFICATIONS = None\<rparr>"

definition silent_world :: world where
  "silent_world = \<lparr>db = Map.empty, clock = [], connects = [], disconnects = [],
     get_times = [], commands = [], posts = [], saves = [], events = []\<rparr>"

text \<open>
  Two runs of one cycle for the terminal. In the first the device clock is 30 seconds
  behind; in the second it is 400 seconds behind, accepts the correction, and still reads
  100 seconds behind afterwards.
\<close>

definition in_sync_world :: world where
  "in_sync_world = silent_world\<lparr>connects := [True, True, True],
     disconnects := [True, True, True], clock := [1000000000, 1000000500],
     get_times := [Returns (Some 970000000)]\<rparr>"

definition stubborn_world :: world where
  "stubborn_world = silent_world\<lparr>connects := [True, True, True, True, True],
     disconnects := [True, True, True, True, True], clock := [1000000000, 1000000100],
     get_times := [Returns (Some 600000000), Returns (Some 900000000)],
     commands := [Returns True, Returns True, Returns True], posts := [Returns 200]\<rparr>"

text \<open>
  A terminal that answers while the status file cannot be written once: with "offline"
  stored for it, and with nothing stored.
\<close>

definition back_online_world :: world where
  "back_online_world = silent_world\<lparr>db := [''1_online_status'' \<mapsto> Str ''offline''],
     connects := [True], disconnects := [True], saves := [False]\<rparr>"

definition first_seen_world :: world where
  "first_seen_world = silent_world\<lparr>connects := [True], disconnects := [True],
     saves := [False]\<rparr>"

section \<open>How the events and the dictionary evolve\<close>

text \<open>
  \<open>step P w w'\<close>: from \<open>w\<close> to \<open>w'\<close> the record of events was only extended, every
  new event satisfies \<open>P\<close>, and the dictionary changed by exactly the \<open>StoreSet\<close> events
  among them.
\<close>

lemma stepI:
  "events w' = events w @ es \<Longrightarrow> list_all P es \<Longrightarrow> db w' = replay es (db w) \<Longrightarrow> step P w w'"
  by (simp add: step_def new_events_def)

lemma stepE:
  assumes "step P w w'"
  obtains es where "events w' = events w @ es" "list_all P es" "db w' = replay es (db w)"
    "new_events w w' = es"
  using assms by (auto simp: step_def)

lemma replay_append: "replay (es @ fs) m = replay fs (replay es m)"
  by (simp add: replay_def)

lemma step_refl: "step P w w"
  by (rule stepI [where es = "[]"]) (simp_all add: replay_def)

lemma step_trans:
  assumes "step P w w1" "step P w1 w2"
  shows "step P w w2"
proof -
  from assms(1) obtain es where es: "events w1 = events w @ es" "list_all P es" "db w1 = replay es (db w)"
    by (rule stepE)
  from assms(2) obtain fs where fs: "events w2 = events w1 @ fs" "list_all P fs" "db w2 = replay fs (db w1)"
    by (rule stepE)
  show ?thesis
    by (rule stepI [where es = "es @ fs"]) (simp_all add: es fs replay_append)
qed

lemma step_mono:
  assumes "step P w w'" "\<And>e. P e \<Longrightarrow> Q e"
  shows "step Q w w'"
proof -
  from assms(1) obtain es where es: "events w' = events w @ es" "list_all P es" "db w' = replay es (db w)"
    by (rule stepE)
  from es(2) assms(2) have "list_all Q es" by (auto simp: list_all_iff)
  with es show ?thesis by (auto intro: stepI)
qed

lemma new_events_trans:
  assumes "step P w w1" "step Q w1 w2"
  shows "new_events w w2 = new_events w w1 @ new_events w1 w2"
proof -
  from assms(1) obtain es where es: "events w1 = events w @ es" "new_events w w1 = es"
    by (rule stepE)
  from assms(2) obtain fs where fs: "events w2 = events w1 @ fs" "new_events w1 w2 = fs"
    by (rule stepE)
  have "new_events w w2 = es @ fs"
    by (simp add: new_events_def es(1) fs(1))
  then show ?thesis by (simp add: es(2) fs(2))
qed

lemma new_events_self [simp]: "new_events w w = []"
  by (simp add: new_events_def)

lemma replay_frame: "k \<notin> set (List.map_filter written_key es) \<Longrightarrow> replay es m k = m k"
proof (induction es arbitrary: m)
  case Nil
  then show ?case by (simp add: replay_def)
next
  case (Cons e es)
  then show ?case by (cases e) (auto simp: replay_def List.map_filter_simps)
qed

lemma step_frame: "step P w w' \<Longrightarrow> k \<notin> set (keys_written w w') \<Longrightarrow> db w' k = db w k"
  by (simp add: step_def keys_written_def replay_frame)

lemma step_notifications:
  "step P w w' \<Longrightarrow> notifications w' = notifications w @ filter is_notify (new_events w w')"
  by (auto simp: step_def notifications_def)

text \<open>What the calls to the outside do to the record of events and to the dictionary.\<close>

lemma step_emit: "P e \<Longrightarrow> written_key e = None \<Longrightarrow> step P w (emit e w)"
  by (rule stepI [where es = "[e]"]) (cases e; simp add: emit_def replay_def)+

lemma step_now: "step P w (snd (now w))"
  by (rule stepI [where es = "[]"]) (simp_all add: now_def replay_def split: list.splits)

lemma step_now': "now w = (t, w') \<Longrightarrow> step P w w'"
  using step_now [of P w] by simp

lemma step_sleep: "P (Sleep n) \<Longrightarrow> step P w (sleep n w)"
  by (simp add: sleep_def step_emit)

lemma step_status_set: "P (StoreSet k v) \<Longrightarrow> step P w (status_set k v w)"
  by (rule stepI [where es = "[StoreSet k v]"]) (simp_all add: status_set_def emit_def replay_def)

lemma step_status_save: "P StoreSave \<Longrightarrow> step P w (snd (status_save w))"
  by (rule stepI [where es = "[StoreSave]"])
     (simp_all add: status_save_def emit_def replay_def Let_def split: list.splits)

lemma step_zk_connect: "P (Connect a t) \<Longrightarrow> step P w (snd (zk_connect a t w))"
  by (rule stepI [where es = "[Connect a t]"])
     (simp_all add: zk_connect_def emit_def replay_def Let_def split: list.splits)

lemma step_conn_disconnect: "P (Disconnect a) \<Longrightarrow> step P w (snd (conn_disconnect a w))"
  by (rule stepI [where es = "[Disconnect a]"])
     (simp_all add: conn_disconnect_def emit_def replay_def Let_def split: list.splits)

lemma step_conn_get_time: "P (GetTime a) \<Longrightarrow> step P w (snd (conn_get_time a w))"
  by (rule stepI [where es = "[GetTime a]"])
     (simp_all add: conn_get_time_def emit_def replay_def Let_def split: list.splits)

lemma step_conn_command: "P e \<Longrightarrow> written_key e = None \<Longrightarrow> step P w (snd (conn_command e w))"
  by (rule stepI [where es = "[e]"])
     (cases e; simp add: conn_command_def emit_def replay_def Let_def split: list.splits)+

lemma step_requests_post: "P (HttpPost u p) \<Longrightarrow> step P w (snd (requests_post u p w))"
  by (rule stepI [where es = "[HttpPost u p]"])
     (simp_all add: requests_post_def emit_def replay_def Let_def split: list.splits)

lemma filter_new_events_empty:
  "step P w w' \<Longrightarrow> (\<And>e. P e \<Longrightarrow> \<not> Q e) \<Longrightarrow> filter Q (new_events w w') = []"
  by (auto simp: step_def list_all_iff filter_empty_conv)

lemma emit_fields [simp]:
  "events (emit e w) = events w @ [e]"
  "db (emit e w) = db w"
  "clock (emit e w) = clock w"
  "connects (emit e w) = connects w"
  "disconnects (emit e w) = disconnects w"
  "get_times (emit e w) = get_times w"
  "commands (emit e w) = commands w"
  "posts (emit e w) = posts w"
  "saves (emit e w) = saves w"
  by (simp_all add: emit_def)

lemma events_now [simp]: "events (snd (now w)) = events w"
  by (simp add: now_def split: list.splits)

lemma posts_now [simp]: "posts (snd (now w)) = posts w"
  by (simp add: now_def split: list.splits)

lemma events_requests_post [simp]:
  "events (snd (requests_post u p w)) = events w @ [HttpPost u p]"
  by (simp add: requests_post_def emit_def Let_def split: list.splits)

lemma fst_requests_post:
  "fst (requests_post u p w) = (case posts w of [] \<Rightarrow> Raises | r # _ \<Rightarrow> r)"
  by (simp add: requests_post_def emit_def Let_def split: list.splits)

lemma snd_send:
  "snd (send_google_chat_message cfg m i a w) =
     (if \<not> ENABLE_CHAT_NOTIFICATIONS cfg \<or> \<not> truthy (GOOGLE_CHAT_WEBHOOK cfg)
      then emit (Notify m i a) w
      else snd (requests_post (text_of (GOOGLE_CHAT_WEBHOOK cfg))
                  (if truthy i \<and> truthy a
                   then DeviceAlert (text_of i) (text_of a) (fst (now (emit (Notify m i a) w))) m
                   else SystemAlert (fst (now (emit (Notify m i a) w))) m)
                  (snd (now (emit (Notify m i a) w)))))"
  by (simp add: send_google_chat_message_def Let_def split_def split: outcome.splits)

lemma fst_send:
  "fst (send_google_chat_message cfg m i a w) =
     (ENABLE_CHAT_NOTIFICATIONS cfg \<and> truthy (GOOGLE_CHAT_WEBHOOK cfg) \<and>
      (case posts w of Returns c # _ \<Rightarrow> c = 200 | _ \<Rightarrow> False))"
  by (auto simp add: send_google_chat_message_def Let_def split_def fst_requests_post
        split: outcome.splits list.splits)

lemma step_send:
  "step (\<lambda>e. is_notify e \<or> is_http_post e) w (snd (send_google_chat_message cfg m i a w))"
proof -
  let ?P = "\<lambda>e. is_notify e \<or> is_http_post e"
  let ?w0 = "emit (Notify m i a) w"
  have 1: "step ?P w ?w0" by (simp add: step_emit)
  have 2: "step ?P ?w0 (snd (now ?w0))" by (rule step_now)
  have 3: "\<And>u p. step ?P (snd (now ?w0)) (snd (requests_post u p (snd (now ?w0))))"
    by (simp add: step_requests_post)
  have 4: "\<And>u p. step ?P w (snd (requests_post u p (snd (now ?w0))))"
    by (rule step_trans [OF 1 step_trans [OF 2 3]])
  show ?thesis
    unfolding snd_send using 1 4 by (simp del: split_paired_All)
qed

lemma send_new_notifications:
  "filter is_notify (new_events w (snd (send_google_chat_message cfg m i a w))) = [Notify m i a]"
  unfolding snd_send by (simp add: new_events_def)

lemma send_notifications:
  "notifications (snd (send_google_chat_message cfg m i a w)) = notifications w @ [Notify m i a]"
  by (simp add: step_notifications [OF step_send] send_new_notifications)

lemma send_keys_written:
  "keys_written w (snd (send_google_chat_message cfg m i a w)) = []"
  unfolding snd_send by (simp add: keys_written_def new_events_def List.map_filter_simps)

lemma send_db: "db (snd (send_google_chat_message cfg m i a w)) = db w"
  by (rule ext, rule step_frame [OF step_send]) (simp add: send_keys_written)

lemma keys_written_trans:
  "step P w w1 \<Longrightarrow> step Q w1 w2 \<Longrightarrow> keys_written w w2 = keys_written w w1 @ keys_written w1 w2"
  by (simp add: keys_written_def new_events_trans List.map_filter_def)

lemma status_set_fields [simp]:
  "events (status_set k v w) = events w @ [StoreSet k v]"
  "db (status_set k v w) = (db w)(k \<mapsto> v)"
  by (simp_all add: status_set_def)

lemma status_save_fields [simp]:
  "events (snd (status_save w)) = events w @ [StoreSave]"
  "db (snd (status_save w)) = db w"
  by (simp_all add: status_save_def Let_def split: list.splits)

lemma zk_connect_fields [simp]:
  "events (snd (zk_connect a t w)) = events w @ [Connect a t]"
  "db (snd (zk_connect a t w)) = db w"
  "clock (snd (zk_connect a t w)) = clock w"
  by (simp_all add: zk_connect_def Let_def split: list.splits)

lemma conn_disconnect_fields [simp]:
  "events (snd (conn_disconnect a w)) = events w @ [Disconnect a]"
  "db (snd (conn_disconnect a w)) = db w"
  "clock (snd (conn_disconnect a w)) = clock w"
  by (simp_all add: conn_disconnect_def Let_def split: list.splits)

lemma notifications_append_other:
  "events w' = events w @ [e] \<Longrightarrow> \<not> is_notify e \<Longrightarrow> notifications w' = notifications w"
  by (simp add: notifications_def)

lemma notifications_status [simp]:
  "notifications (status_set k v w) = notifications w"
  "notifications (snd (status_save w)) = notifications w"
  by (simp_all add: notifications_def)

text \<open>The two branches of the reachability check.\<close>

lemma snd_device_is_offline:
  "snd (device_is_offline cfg dev w) =
     (if db w (status_key dev) = Some (Str ''offline'') then w
      else snd (status_save (status_set (status_key dev) (Str ''offline'')
             (snd (send_google_chat_message cfg Offline (Some (device_id dev)) (Some (ip dev)) w)))))"
  by (simp add: device_is_offline_def status_get_def Let_def split_def split: outcome.splits)

lemma fst_device_is_offline: "fst (device_is_offline cfg dev w) \<noteq> Returns True"
  by (simp add: device_is_offline_def Let_def split_def split: outcome.splits)

lemma snd_device_is_online:
  "snd (device_is_online cfg dev w) =
     (if db w (status_key dev) = Some (Str ''offline'')
      then snd (status_save (status_set (status_key dev) (Str ''online'')
             (snd (send_google_chat_message cfg BackOnline (Some (device_id dev)) (Some (ip dev)) w))))
      else if db w (status_key dev) = None
      then snd (status_save (status_set (status_key dev) (Str ''online'') w))
      else w)"
  by (simp add: device_is_online_def status_get_def Let_def split_def split: outcome.splits)

lemma fst_device_is_online: "fst (device_is_online cfg dev w) \<noteq> Returns False"
  by (simp add: device_is_online_def Let_def split_def split: outcome.splits)

lemma step_device_is_offline: "step (check_event dev) w (snd (device_is_offline cfg dev w))"
proof -
  let ?w1 = "snd (send_google_chat_message cfg Offline (Some (device_id dev)) (Some (ip dev)) w)"
  let ?w2 = "status_set (status_key dev) (Str ''offline'') ?w1"
  have 1: "step (check_event dev) w ?w1"
    by (rule step_mono [OF step_send]) (auto simp: check_event_def)
  have 2: "step (check_event dev) ?w1 ?w2"
    by (rule step_status_set) (simp add: check_event_def)
  have 3: "step (check_event dev) ?w2 (snd (status_save ?w2))"
    by (rule step_status_save) (simp add: check_event_def)
  show ?thesis
    unfolding snd_device_is_offline
    using step_trans [OF 1 step_trans [OF 2 3]] by (simp add: step_refl)
qed

lemma step_device_is_online: "step (check_event dev) w (snd (device_is_online cfg dev w))"
proof -
  let ?w1 = "snd (send_google_chat_message cfg BackOnline (Some (device_id dev)) (Some (ip dev)) w)"
  let ?w2 = "status_set (status_key dev) (Str ''online'') ?w1"
  let ?w2' = "status_set (status_key dev) (Str ''online'') w"
  have 1: "step (check_event dev) w ?w1"
    by (rule step_mono [OF step_send]) (auto simp: check_event_def)
  have 2: "step (check_event dev) ?w1 ?w2" "step (check_event dev) w ?w2'"
    by (rule step_status_set, simp add: check_event_def)+
  have 3: "step (check_event dev) ?w2 (snd (status_save ?w2))"
    "step (check_event dev) ?w2' (snd (status_save ?w2'))"
    by (rule step_status_save, simp add: check_event_def)+
  show ?thesis
    unfolding snd_device_is_online
    using step_trans [OF 1 step_trans [OF 2(1) 3(1)]] step_trans [OF 2(2) 3(2)]
    by (simp add: step_refl)
qed

text \<open>
  The check by the outcome of the probe: a device found unreachable goes to the handler;
  a device that answered goes through the bookkeeping and, when that raises, to the
  handler as well.
\<close>

lemma check_unreachable:
  "fst (probe dev w) = Raises \<Longrightarrow>
   check_device_online_status cfg dev w = device_is_offline cfg dev (snd (probe dev w))"
  by (simp add: check_device_online_status_def probe_def split_def split: outcome.splits)

lemma check_reachable:
  "fst (probe dev w) \<noteq> Raises \<Longrightarrow>
   check_device_online_status cfg dev w =
     (if fst (device_is_online cfg dev (snd (probe dev w))) = Raises
      then device_is_offline cfg dev (snd (device_is_online cfg dev (snd (probe dev w))))
      else device_is_online cfg dev (snd (probe dev w)))"
  by (auto simp add: check_device_online_status_def probe_def split_def prod_eq_iff
        split: outcome.splits)

lemma probe_fields [simp]:
  "db (snd (probe dev w)) = db w"
  "notifications (snd (probe dev w)) = notifications w"
  "clock (snd (probe dev w)) = clock w"
  by (simp_all add: probe_def split_def notifications_def split: outcome.splits)

lemma step_probe: "step (check_event dev) w (snd (probe dev w))"
proof -
  have 1: "step (check_event dev) w (snd (zk_connect (ip dev) 5 w))"
    by (rule step_zk_connect) (simp add: check_event_def)
  have 2: "\<And>w1. step (check_event dev) w1 (snd (conn_disconnect (ip dev) w1))"
    by (rule step_conn_disconnect) (simp add: check_event_def)
  show ?thesis
    using 1 step_trans [OF 1 2]
    by (simp add: probe_def split_def split: outcome.splits)
qed

lemma probe_new_events:
  "list_all (\<lambda>e. e = Connect (ip dev) 5 \<or> e = Disconnect (ip dev))
     (new_events w (snd (probe dev w)))"
  by (simp add: probe_def split_def new_events_def split: outcome.splits)

lemma keys_written_probe [simp]: "keys_written w (snd (probe dev w)) = []"
  by (simp add: probe_def split_def keys_written_def new_events_def List.map_filter_simps
        split: outcome.splits)

lemma step_check: "step (check_event dev) w (snd (check_device_online_status cfg dev w))"
proof (cases "fst (probe dev w) = Raises")
  case True
  show ?thesis
    unfolding check_unreachable [OF True]
    by (rule step_trans [OF step_probe step_device_is_offline])
next
  case False
  have on: "step (check_event dev) w (snd (device_is_online cfg dev (snd (probe dev w))))"
    by (rule step_trans [OF step_probe step_device_is_online])
  have off: "step (check_event dev) w
      (snd (device_is_offline cfg dev (snd (device_is_online cfg dev (snd (probe dev w))))))"
    by (rule step_trans [OF on step_device_is_offline])
  show ?thesis
    unfolding check_reachable [OF False] using on off by simp
qed

lemma check_never_reachable_when_unreachable:
  "fst (probe dev w) = Raises \<Longrightarrow> fst (check_device_online_status cfg dev w) \<noteq> Returns True"
  by (simp add: check_unreachable fst_device_is_offline)

text \<open>What the handler does, in full.\<close>

lemma device_is_offline_notifications:
  "notifications (snd (device_is_offline cfg dev w)) =
     notifications w @
     (if db w (status_key dev) = Some (Str ''offline'') then []
      else [Notify Offline (Some (device_id dev)) (Some (ip dev))])"
  by (simp add: snd_device_is_offline send_notifications)

lemma device_is_offline_db:
  "db (snd (device_is_offline cfg dev w)) =
     (if db w (status_key dev) = Some (Str ''offline'') then db w
      else (db w)(status_key dev \<mapsto> Str ''offline''))"
  by (simp add: snd_device_is_offline send_db)

lemma device_is_offline_new_events:
  "db w (status_key dev) \<noteq> Some (Str ''offline'') \<Longrightarrow>
   new_events w (snd (device_is_offline cfg dev w)) =
     new_events w (snd (send_google_chat_message cfg Offline (Some (device_id dev)) (Some (ip dev)) w))
     @ [StoreSet (status_key dev) (Str ''offline''), StoreSave]"
proof -
  assume a: "db w (status_key dev) \<noteq> Some (Str ''offline'')"
  let ?w1 = "snd (send_google_chat_message cfg Offline (Some (device_id dev)) (Some (ip dev)) w)"
  from step_send [of w cfg Offline "Some (device_id dev)" "Some (ip dev)"]
  obtain es where es: "events ?w1 = events w @ es" "new_events w ?w1 = es"
    by (rule stepE)
  show ?thesis
    using a by (simp add: snd_device_is_offline new_events_def es(1))
qed

lemma keys_written_append_new:
  "new_events w w' = es @ fs \<Longrightarrow>
   keys_written w w' = List.map_filter written_key es @ List.map_filter written_key fs"
  by (simp add: keys_written_def List.map_filter_def)

lemma send_new_events_keys:
  "List.map_filter written_key
     (new_events w (snd (send_google_chat_message cfg m i a w))) = []"
  using send_keys_written [of w cfg m i a] by (simp add: keys_written_def)

lemma device_is_offline_keys_written:
  "keys_written w (snd (device_is_offline cfg dev w)) =
     (if db w (status_key dev) = Some (Str ''offline'') then [] else [status_key dev])"
proof (cases "db w (status_key dev) = Some (Str ''offline'')")
  case True
  then show ?thesis by (simp add: snd_device_is_offline keys_written_def)
next
  case False
  then show ?thesis
    by (simp add: keys_written_append_new [OF device_is_offline_new_events [OF False]]
          send_new_events_keys List.map_filter_simps)
qed

text \<open>What the notifier posts.\<close>

lemma fst_now_emit [simp]: "fst (now (emit e w)) = fst (now w)"
  by (simp add: now_def split: list.splits)

lemma send_posts:
  "filter is_http_post
     (new_events w (snd (send_google_chat_message cfg m (Some (device_id dev)) (Some (ip dev)) w))) =
     (if ENABLE_CHAT_NOTIFICATIONS cfg \<and> truthy (GOOGLE_CHAT_WEBHOOK cfg)
      then [HttpPost (text_of (GOOGLE_CHAT_WEBHOOK cfg)) (device_payload dev (fst (now w)) m)]
      else [])"
  unfolding snd_send
  by (simp add: new_events_def device_payload_def truthy_def text_of_def)

text \<open>The script of the save is consumed by the save alone.\<close>

lemma saves_now [simp]: "saves (snd (now w)) = saves w"
  by (simp add: now_def split: list.splits)

lemma saves_status_set [simp]: "saves (status_set k v w) = saves w"
  by (simp add: status_set_def)

lemma saves_requests_post [simp]: "saves (snd (requests_post u p w)) = saves w"
  by (simp add: requests_post_def Let_def split: list.splits)

lemma saves_send [simp]: "saves (snd (send_google_chat_message cfg m i a w)) = saves w"
  by (simp add: snd_send)

lemma saves_probe [simp]: "saves (snd (probe dev w)) = saves w"
  by (simp add: probe_def split_def zk_connect_def conn_disconnect_def Let_def
        split: outcome.splits list.splits)

lemma fst_now_probe [simp]: "fst (now (snd (probe dev w))) = fst (now w)"
  by (simp add: now_def split: list.splits)

lemma fst_device_is_offline_saves:
  "db w (status_key dev) \<noteq> Some (Str ''offline'') \<Longrightarrow>
   fst (device_is_offline cfg dev w) =
     (case saves w of [] \<Rightarrow> Returns False
      | ok # rest \<Rightarrow> if ok then Returns False else Raises)"
  by (simp add: device_is_offline_def status_get_def status_save_def Let_def split_def
        split: list.splits)

text \<open>A device found unreachable: the check is the probe followed by the handler.\<close>

lemma check_unreachable_new_events:
  assumes "fst (probe dev w) = Raises"
  shows "new_events w (snd (check_device_online_status cfg dev w)) =
     new_events w (snd (probe dev w)) @
     new_events (snd (probe dev w)) (snd (device_is_offline cfg dev (snd (probe dev w))))"
  unfolding check_unreachable [OF assms]
  by (rule new_events_trans [OF step_probe step_device_is_offline])

lemma step_get_device_time: "step (read_event a) w (snd (get_device_time a w))"
proof -
  let ?P = "read_event a"
  have 1: "step ?P w (snd (zk_connect a 30 w))"
    by (rule step_zk_connect) (simp add: read_event_def)
  have 2: "\<And>w1. step ?P w1 (snd (conn_get_time a w1))"
    by (rule step_conn_get_time) (simp add: read_event_def)
  have 3: "\<And>w2. step ?P w2 (snd (conn_disconnect a w2))"
    by (rule step_conn_disconnect) (simp add: read_event_def)
  note 12 = step_trans [OF 1 2]
  note 123 = step_trans [OF 12 3]
  show ?thesis
    using 1 123 by (simp add: get_device_time_def split_def split: outcome.splits)
qed

lemma step_set_device_time: "step (write_event a t) w (snd (set_device_time a t w))"
proof -
  let ?P = "write_event a t"
  have 1: "step ?P w (snd (zk_connect a 30 w))"
    by (rule step_zk_connect) (simp add: write_event_def)
  have 2: "\<And>w1. step ?P w1 (snd (conn_disable_device a w1))"
    unfolding conn_disable_device_def by (rule step_conn_command) (simp_all add: write_event_def)
  have 3: "\<And>w1. step ?P w1 (snd (conn_set_time a t w1))"
    unfolding conn_set_time_def by (rule step_conn_command) (simp_all add: write_event_def)
  have 4: "\<And>w1. step ?P w1 (snd (conn_enable_device a w1))"
    unfolding conn_enable_device_def by (rule step_conn_command) (simp_all add: write_event_def)
  have 5: "\<And>w2. step ?P w2 (snd (conn_disconnect a w2))"
    by (rule step_conn_disconnect) (simp add: write_event_def)
  note s2 = step_trans [OF 1 2]
  note s2d = step_trans [OF s2 5]
  note s3 = step_trans [OF s2 3]
  note s3d = step_trans [OF s3 5]
  note s4 = step_trans [OF s3 4]
  note s4d = step_trans [OF s4 5]
  show ?thesis
    using 1 s2d s3d s4d by (simp add: set_device_time_def split_def split: outcome.splits)
qed

lemma conn_command_events [simp]:
  "events (snd (conn_command e w)) = events w @ [e]"
  by (simp add: conn_command_def Let_def split: list.splits)

lemma set_device_time_returns:
  assumes "set_device_time a t w = (Returns r, w')"
  shows "r" and "new_events w w' =
     [Connect a 30, DisableDevice a, SetTime a t, EnableDevice a, Disconnect a]"
  using assms
  by (auto simp add: set_device_time_def split_def new_events_def
        conn_disable_device_def conn_set_time_def conn_enable_device_def
        split: outcome.splits)

lemma step_check': 
  "check_device_online_status cfg dev w = (r, w') \<Longrightarrow> step (check_event dev) w w'"
  using step_check [of dev w cfg] by simp

lemma step_get_device_time':
  "get_device_time a w = (r, w') \<Longrightarrow> step (read_event a) w w'"
  using step_get_device_time [of a w] by simp

lemma step_set_device_time':
  "set_device_time a t w = (r, w') \<Longrightarrow> step (write_event a t) w w'"
  using step_set_device_time [of a t w] by simp

lemma stepD:
  "step P w w' \<Longrightarrow> list_all P (new_events w w')"
  by (simp add: step_def)

lemma no_write_check: "check_event dev e \<Longrightarrow> \<not> is_device_write e"
  by (cases e) (auto simp: check_event_def)

lemma no_write_read: "read_event a e \<Longrightarrow> \<not> is_device_write e"
  by (cases e) (auto simp: read_event_def)

lemma no_write_notify: "is_notify e \<or> is_http_post e \<Longrightarrow> \<not> is_device_write e"
  by (cases e) auto

lemma step_sync_device_time:
  "step (sync_event dev) w (snd (sync_device_time cfg dev w))"
proof -
  let ?Q = "sync_event dev"
  obtain r w0 where c: "check_device_online_status cfg dev w = (r, w0)" by force
  obtain sys w1 where n: "now w0 = (sys, w1)" by force
  obtain g w2 where g: "get_device_time (ip dev) w1 = (g, w2)" by force
  obtain s w3 where s: "set_device_time (ip dev) sys w2 = (s, w3)" by force
  have s0: "step ?Q w w0"
    by (rule step_mono [OF step_check' [OF c]]) (simp add: sync_event_def)
  have s1: "step ?Q w0 w1" by (rule step_now' [OF n])
  have s2: "step ?Q w1 w2"
    by (rule step_mono [OF step_get_device_time' [OF g]]) (simp add: sync_event_def)
  have s3: "step ?Q w2 w3"
    by (rule step_mono [OF step_set_device_time' [OF s]]) (auto simp add: sync_event_def)
  have t2: "step ?Q w w2" by (rule step_trans [OF s0 step_trans [OF s1 s2]])
  have t3: "step ?Q w w3" by (rule step_trans [OF t2 s3])
  show ?thesis
  proof (cases "r = Returns True")
    case False
    then have "snd (sync_device_time cfg dev w) = w0"
      by (cases r) (auto simp add: sync_device_time_def c split: bool.splits)
    with s0 show ?thesis by simp
  next
    case r: True
    show ?thesis
    proof (cases "\<exists>dt. g = Returns (Some dt) \<and> \<bar>sys - dt\<bar> > tolerance_us cfg")
      case False
      then have "snd (sync_device_time cfg dev w) = w2"
        by (cases g) (auto simp add: sync_device_time_def c r n g split: option.splits)
      with t2 show ?thesis by simp
    next
      case True
      then obtain dt where dt: "g = Returns (Some dt)" "\<bar>sys - dt\<bar> > tolerance_us cfg"
        by blast
      show ?thesis
      proof (cases "s = Returns True")
        case False
        then have "snd (sync_device_time cfg dev w) = w3"
          using dt(2)
          by (cases s) (auto simp add: sync_device_time_def c r n g dt(1) s)
        with t3 show ?thesis by simp
      next
        case ok: True
        define w4 where "w4 = (if \<bar>sys - dt\<bar> > significant_us
           then snd (send_google_chat_message cfg (TimeSynchronized \<bar>sys - dt\<bar>)
                       (Some (device_id dev)) (Some (ip dev)) w3)
           else w3)"
        obtain g2 w6 where g2: "get_device_time (ip dev) (sleep 2 w4) = (g2, w6)" by force
        have sn: "step ?Q w3 (snd (send_google_chat_message cfg m i a w3))" for m i a
          by (rule step_mono [OF step_send]) (auto simp add: sync_event_def check_event_def)
        have s4: "step ?Q w3 w4"
          unfolding w4_def using sn by (simp add: step_refl)
        have s5: "step ?Q w4 (sleep 2 w4)"
          by (rule step_sleep) (simp add: sync_event_def)
        have s6: "step ?Q (sleep 2 w4) w6"
          by (rule step_mono [OF step_get_device_time' [OF g2]]) (simp add: sync_event_def)
        have t6: "step ?Q w w6"
          by (rule step_trans [OF t3 step_trans [OF s4 step_trans [OF s5 s6]]])
        have "snd (sync_device_time cfg dev w) = w6"
          using dt(2) g2
          by (simp add: sync_device_time_def c r n g dt(1) s ok w4_def [symmetric] Let_def
                split: outcome.splits option.splits)
        with t6 show ?thesis by simp
      qed
    qed
  qed
qed

lemma step_sync_all_devices_body:
  "step (body_event dev) w (sync_all_devices_body cfg dev w)"
proof -
  let ?Q = "body_event dev"
  obtain r w1 where c: "check_device_online_status cfg dev w = (r, w1)" by force
  obtain x w2 where x: "sync_device_time cfg dev w1 = (x, w2)" by force
  obtain t w3 where n: "now w2 = (t, w3)" by force
  have s1: "step ?Q w w1"
    by (rule step_mono [OF step_check' [OF c]]) (simp add: body_event_def sync_event_def)
  have s2: "step ?Q w1 w2"
    using step_mono [OF step_sync_device_time [of dev w1 cfg], of ?Q] x
    by (simp add: body_event_def)
  have s3: "step ?Q w2 w3" by (rule step_now' [OF n])
  have s4: "step ?Q w3 (status_set (last_time_sync_key dev) (DateStr t) w3)"
    by (rule step_status_set) (simp add: body_event_def)
  have s5: "step ?Q w' (snd (status_save w'))" for w'
    by (rule step_status_save) (simp add: body_event_def sync_event_def check_event_def)
  note t2 = step_trans [OF s1 s2]
  note t5 = step_trans [OF t2 step_trans [OF s3 step_trans [OF s4 s5]]]
  show ?thesis
    using s1 t2 t5
    by (simp add: sync_all_devices_body_def c x n Let_def
          split: outcome.splits option.splits bool.splits)
qed

text \<open>The keys of the status store are told apart by their last character.\<close>

lemma status_key_neq_last_time_sync_key: "status_key d \<noteq> last_time_sync_key d'"
proof
  assume "status_key d = last_time_sync_key d'"
  then have "last (status_key d) = last (last_time_sync_key d')" by simp
  then show False by (simp add: status_key_def last_time_sync_key_def)
qed

lemma run_key_neq_last_time_sync_key: "''last_time_sync_run'' \<noteq> last_time_sync_key d"
proof
  assume "''last_time_sync_run'' = last_time_sync_key d"
  then have "last ''last_time_sync_run'' = last (last_time_sync_key d)" by simp
  then show False by (simp add: last_time_sync_key_def)
qed

lemma run_key_neq_status_key: "''last_time_sync_run'' \<noteq> status_key d"
proof
  assume "''last_time_sync_run'' = status_key d"
  then have "last ''last_time_sync_run'' = last (status_key d)" by simp
  then show False by (simp add: status_key_def)
qed

lemma last_time_sync_key_inj: "last_time_sync_key d = last_time_sync_key d' \<longleftrightarrow> device_id d = device_id d'"
  by (simp add: last_time_sync_key_def)

lemma status_key_inj: "status_key d = status_key d' \<longleftrightarrow> device_id d = device_id d'"
  by (simp add: status_key_def)

lemma keys_written_subset:
  assumes "step P w w'" and "\<And>e k. P e \<Longrightarrow> written_key e = Some k \<Longrightarrow> k \<in> K"
  shows "set (keys_written w w') \<subseteq> K"
proof -
  from assms(1) have "list_all P (new_events w w')" by (rule stepD)
  with assms(2) show ?thesis
    by (auto simp: keys_written_def List.map_filter_def list_all_iff)
qed

lemma sync_event_keys: "sync_event dev e \<Longrightarrow> written_key e = Some k \<Longrightarrow> k = status_key dev"
  by (cases e) (auto simp: sync_event_def check_event_def read_event_def write_event_def)

lemma check_event_keys: "check_event dev e \<Longrightarrow> written_key e = Some k \<Longrightarrow> k = status_key dev"
  by (cases e) (auto simp: check_event_def)

lemma body_event_keys:
  "body_event dev e \<Longrightarrow> written_key e = Some k \<Longrightarrow> k = status_key dev \<or> k = last_time_sync_key dev"
  by (cases e) (auto simp: body_event_def dest: sync_event_keys)

lemma sync_device_time_Some_True:
  assumes ok: "fst (sync_device_time cfg dev w) = Returns (Some True)"
  shows "\<exists>w0 system_time w1 device_time w2.
           check_device_online_status cfg dev w = (Returns True, w0) \<and>
           now w0 = (system_time, w1) \<and>
           get_device_time (ip dev) w1 = (Returns (Some device_time), w2) \<and>
           (\<bar>system_time - device_time\<bar> \<le> tolerance_us cfg \<or>
            (\<exists>w3 updated_device_time w6.
               set_device_time (ip dev) system_time w2 = (Returns True, w3) \<and>
               get_device_time (ip dev)
                 (sleep 2 (if \<bar>system_time - device_time\<bar> > significant_us
                           then snd (send_google_chat_message cfg
                                  (TimeSynchronized \<bar>system_time - device_time\<bar>)
                                  (Some (device_id dev)) (Some (ip dev)) w3)
                           else w3))
                 = (Returns (Some updated_device_time), w6) \<and>
               \<bar>system_time - updated_device_time\<bar> \<le> tolerance_us cfg))"
proof -
  obtain r w0 where c: "check_device_online_status cfg dev w = (r, w0)" by force
  obtain sys w1 where n: "now w0 = (sys, w1)" by force
  obtain g w2 where g: "get_device_time (ip dev) w1 = (g, w2)" by force
  obtain s w3 where s: "set_device_time (ip dev) sys w2 = (s, w3)" by force
  have r: "r = Returns True"
    using ok by (cases r) (auto simp add: sync_device_time_def c split: bool.splits)
  have "\<exists>dt. g = Returns (Some dt)"
    using ok r by (cases g) (auto simp add: sync_device_time_def c n g split: option.splits)
  then obtain dt where dt: "g = Returns (Some dt)" by blast
  show ?thesis
  proof (cases "\<bar>sys - dt\<bar> \<le> tolerance_us cfg")
    case True
    have c': "check_device_online_status cfg dev w = (Returns True, w0)"
      using c r by simp
    have g': "get_device_time (ip dev) w1 = (Returns (Some dt), w2)"
      using g dt by simp
    show ?thesis
      apply (rule exI [of _ w0], rule exI [of _ sys], rule exI [of _ w1])
      apply (rule exI [of _ dt], rule exI [of _ w2])
      apply (intro conjI c' n g' disjI1 True)
      done
  next
    case False
    define w4 where "w4 = (if \<bar>sys - dt\<bar> > significant_us
       then snd (send_google_chat_message cfg (TimeSynchronized \<bar>sys - dt\<bar>)
                   (Some (device_id dev)) (Some (ip dev)) w3)
       else w3)"
    obtain g2 w6 where g2: "get_device_time (ip dev) (sleep 2 w4) = (g2, w6)" by force
    have st: "s = Returns True"
      using ok r False
      by (cases s) (auto simp add: sync_device_time_def c n g dt s Let_def split: bool.splits)
    have "\<exists>ut. g2 = Returns (Some ut) \<and> \<bar>sys - ut\<bar> \<le> tolerance_us cfg"
      using ok r False g2
      by (cases g2)
         (auto simp add: sync_device_time_def c n g dt s st w4_def [symmetric] Let_def
               split: option.splits if_splits)
    then obtain ut where ut: "g2 = Returns (Some ut)" "\<bar>sys - ut\<bar> \<le> tolerance_us cfg"
      by blast
    have c': "check_device_online_status cfg dev w = (Returns True, w0)"
      using c r by simp
    have g': "get_device_time (ip dev) w1 = (Returns (Some dt), w2)"
      using g dt by simp
    have s': "set_device_time (ip dev) sys w2 = (Returns True, w3)"
      using s st by simp
    have g2': "get_device_time (ip dev)
        (sleep 2 (if \<bar>sys - dt\<bar> > significant_us
                  then snd (send_google_chat_message cfg (TimeSynchronized \<bar>sys - dt\<bar>)
                              (Some (device_id dev)) (Some (ip dev)) w3)
                  else w3)) = (Returns (Some ut), w6)"
      using g2 ut(1) by (simp add: w4_def)
    show ?thesis
      apply (rule exI [of _ w0], rule exI [of _ sys], rule exI [of _ w1])
      apply (rule exI [of _ dt], rule exI [of _ w2])
      apply (intro conjI c' n g' disjI2)
      apply (rule exI [of _ w3], rule exI [of _ ut], rule exI [of _ w6])
      apply (intro conjI s' g2' ut(2))
      done
  qed
qed

lemma body_keys_without_sync:
  assumes "fst (check_device_online_status cfg dev v) = Returns True \<longrightarrow>
           fst (sync_device_time cfg dev (snd (check_device_online_status cfg dev v)))
             \<noteq> Returns (Some True)"
  shows "set (keys_written v (sync_all_devices_body cfg dev v)) \<subseteq> {status_key dev}"
proof -
  obtain r w where c: "check_device_online_status cfg dev v = (r, w)" by force
  obtain x w2 where x: "sync_device_time cfg dev w = (x, w2)" by force
  have s1: "step (sync_event dev) v w"
    by (rule step_mono [OF step_check' [OF c]]) (simp add: sync_event_def)
  have s2: "step (sync_event dev) w w2"
    using step_sync_device_time [of dev w cfg] x by simp
  have "sync_all_devices_body cfg dev v = w \<or> sync_all_devices_body cfg dev v = w2"
    using assms
    by (cases r)
       (auto simp add: sync_all_devices_body_def c x
             split: outcome.splits option.splits bool.splits)
  then have "step (sync_event dev) v (sync_all_devices_body cfg dev v)"
    using s1 step_trans [OF s1 s2] by auto
  then show ?thesis
    by (rule keys_written_subset) (simp add: sync_event_keys)
qed

lemma step_fold:
  assumes "\<And>d w. step (P d) w (f d w)"
  shows "step (\<lambda>e. \<exists>d\<in>set ds. P d e) w (fold f ds w)"
proof (induction ds arbitrary: w)
  case Nil
  show ?case by (simp add: step_refl)
next
  case (Cons d ds)
  have 1: "step (\<lambda>e. \<exists>x\<in>set (d # ds). P x e) w (f d w)"
    by (rule step_mono [OF assms [of d w]]) auto
  have 2: "step (\<lambda>e. \<exists>x\<in>set (d # ds). P x e) (f d w) (fold f ds (f d w))"
    by (rule step_mono [OF Cons.IH [of "f d w"]]) auto
  show ?case
    using step_trans [OF 1 2] by simp
qed

lemma step_main_check_body: "step (main_check_event dev) w (main_check_body cfg dev w)"
proof -
  let ?Q = "main_check_event dev"
  obtain r w1 where c: "check_device_online_status cfg dev w = (r, w1)" by force
  obtain g w2 where g: "get_device_time (ip dev) w1 = (g, w2)" by force
  have s1: "step ?Q w w1"
    by (rule step_mono [OF step_check' [OF c]]) (simp add: main_check_event_def)
  have s2: "step ?Q w1 w2"
    by (rule step_mono [OF step_get_device_time' [OF g]]) (simp add: main_check_event_def)
  have s3: "step ?Q w2 (snd (now w2))" by (rule step_now)
  note t2 = step_trans [OF s1 s2]
  note t3 = step_trans [OF t2 s3]
  show ?thesis
    using s1 t2 t3
    by (simp add: main_check_body_def c g split: bool.splits outcome.splits)
qed

lemma main_check_event_keys:
  "main_check_event dev e \<Longrightarrow> written_key e = Some k \<Longrightarrow> k = status_key dev"
  by (cases e) (auto simp: main_check_event_def check_event_def read_event_def)

lemma main_check_event_no_write: "main_check_event dev e \<Longrightarrow> \<not> is_device_write e"
  by (auto simp: main_check_event_def dest: no_write_check no_write_read)

lemma step_main_check:
  "step (\<lambda>e. \<exists>d\<in>set (devices cfg). main_check_event d e) w (main_check cfg w)"
  unfolding main_check_def by (rule step_fold) (rule step_main_check_body)

lemma step_sync_all_devices_loop:
  "step (\<lambda>e. True) w (fold (sync_all_devices_body cfg) (devices cfg) w)"
  by (rule step_mono [OF step_fold [where P = body_event], OF step_sync_all_devices_body]) simp

lemma fold_keys_written:
  assumes f: "\<And>d w. step (P d) w (f d w)"
      and k: "k \<in> set (keys_written w (fold f ds w))"
  shows "\<exists>ds1 d ds2. ds = ds1 @ d # ds2 \<and>
           k \<in> set (keys_written (fold f ds1 w) (f d (fold f ds1 w)))"
  using k
proof (induction ds arbitrary: w)
  case Nil
  then show ?case by (simp add: keys_written_def)
next
  case (Cons d ds)
  have "keys_written w (fold f ds (f d w)) =
      keys_written w (f d w) @ keys_written (f d w) (fold f ds (f d w))"
    by (rule keys_written_trans [OF f step_fold [of P f], OF f])
  with Cons.prems consider
      (here) "k \<in> set (keys_written w (f d w))"
    | (later) "k \<in> set (keys_written (f d w) (fold f ds (f d w)))"
    by auto
  then show ?case
  proof cases
    case here
    have "d # ds = [] @ d # ds \<and> k \<in> set (keys_written (fold f [] w) (f d (fold f [] w)))"
      using here by simp
    then show ?thesis by blast
  next
    case later
    from Cons.IH [OF later] obtain ds1 d' ds2 where
      "ds = ds1 @ d' # ds2"
      "k \<in> set (keys_written (fold f ds1 (f d w)) (f d' (fold f ds1 (f d w))))"
      by blast
    then have "d # ds = (d # ds1) @ d' # ds2 \<and>
        k \<in> set (keys_written (fold f (d # ds1) w) (f d' (fold f (d # ds1) w)))"
      by simp
    then show ?thesis by blast
  qed
qed

lemma sync_all_devices_key_turn:
  assumes "last_time_sync_key dev \<in> set (keys_written v (snd (sync_all_devices cfg v)))"
  shows "\<exists>ds1 d ds2. devices cfg = ds1 @ d # ds2 \<and> device_id d = device_id dev \<and>
           last_time_sync_key dev \<in>
             set (keys_written (fold (sync_all_devices_body cfg) ds1 v)
                    (sync_all_devices_body cfg d (fold (sync_all_devices_body cfg) ds1 v)))"
proof -
  let ?k = "last_time_sync_key dev"
  let ?w1 = "fold (sync_all_devices_body cfg) (devices cfg) v"
  have on: "ENABLE_TIME_SYNC cfg"
    using assms by (cases "ENABLE_TIME_SYNC cfg") (simp_all add: sync_all_devices_def keys_written_def)
  have res: "sync_all_devices cfg v =
      status_save (status_set ''last_time_sync_run'' (DateStr (fst (now ?w1))) (snd (now ?w1)))"
    using on by (simp add: sync_all_devices_def Let_def split_def)
  from step_sync_all_devices_loop [of v cfg]
  obtain es where es: "events ?w1 = events v @ es" "new_events v ?w1 = es"
    by (rule stepE)
  have "new_events v (snd (sync_all_devices cfg v)) =
      es @ [StoreSet ''last_time_sync_run'' (DateStr (fst (now ?w1))), StoreSave]"
    by (simp add: res new_events_def es(1))
  then have "keys_written v (snd (sync_all_devices cfg v)) =
      keys_written v ?w1 @ [''last_time_sync_run'']"
    by (simp add: keys_written_def es(2) List.map_filter_def)
  with assms have "?k \<in> set (keys_written v ?w1)"
    using run_key_neq_last_time_sync_key [of dev] by auto
  from fold_keys_written [of body_event "sync_all_devices_body cfg", OF step_sync_all_devices_body this]
  obtain ds1 d ds2 where d: "devices cfg = ds1 @ d # ds2"
    "?k \<in> set (keys_written (fold (sync_all_devices_body cfg) ds1 v)
                    (sync_all_devices_body cfg d (fold (sync_all_devices_body cfg) ds1 v)))"
    by blast
  have "set (keys_written (fold (sync_all_devices_body cfg) ds1 v)
          (sync_all_devices_body cfg d (fold (sync_all_devices_body cfg) ds1 v)))
      \<subseteq> {status_key d, last_time_sync_key d}"
    by (rule keys_written_subset [OF step_sync_all_devices_body]) (auto dest: body_event_keys)
  with d(2) have "device_id d = device_id dev"
    using status_key_neq_last_time_sync_key [of d dev] last_time_sync_key_inj [of dev d]
    by auto
  with d show ?thesis by blast
qed

text \<open>The equations that run the script on a concrete world.\<close>

lemmas run_defs =
  terminal_def site_config_def silent_world_def
  check_device_online_status_def device_is_online_def device_is_offline_def
  send_google_chat_message_def requests_post_def zk_connect_def conn_disconnect_def
  conn_get_time_def conn_command_def conn_disable_device_def conn_set_time_def
  conn_enable_device_def get_device_time_def set_device_time_def
  status_get_def status_set_def status_save_def status_key_def emit_def now_def sleep_def
  ENABLE_CHAT_NOTIFICATIONS_def GOOGLE_CHAT_WEBHOOK_def ENABLE_TIME_SYNC_def
  TIME_TOLERANCE_SECONDS_def tolerance_us_def significant_us_def truthy_def text_of_def
  notifications_def new_events_def keys_written_def probe_def device_payload_def Let_def

lemmas sync_defs = sync_device_time_def sync_all_devices_body_def last_time_sync_key_def
  in_sync_world_def stubborn_world_def back_online_world_def first_seen_world_def

section \<open>The claims\<close>

subsection \<open>Reachability transitions and notifications\<close>

text \<open>
  Claim C1. A status transition seen by \<^verbatim>\<open>check_device_online_status\<close> makes exactly one
  notification attempt, and a check that finds the stored state makes none. The code
  departs from this when the save of the store raises in the reachable branch: the
  \<^verbatim>\<open>try\<close> covers the whole branch, so the exception of the save lands in the handler
  that is meant for an unreachable device. On the concrete site, with "offline" stored, a
  terminal that answers and a save that raises once, the one check makes two notification
  attempts, "back ONLINE" and then "OFFLINE", stores "offline" again and returns
  \<^verbatim>\<open>False\<close> for a device that answered.
\<close>

theorem transition_with_failing_save_notifies_twice:
  "db back_online_world (status_key terminal) = Some (Str ''offline'')
   \<and> fst (probe terminal back_online_world) = Returns ()
   \<and> notifications back_online_world = []
   \<and> fst (check_device_online_status site_config terminal back_online_world) = Returns False
   \<and> notifications (snd (check_device_online_status site_config terminal back_online_world))
       = [Notify BackOnline (Some ''1'') (Some ''10.0.0.7''),
          Notify Offline (Some ''1'') (Some ''10.0.0.7'')]
   \<and> db (snd (check_device_online_status site_config terminal back_online_world))
        (status_key terminal) = Some (Str ''offline'')"
  by (simp add: run_defs sync_defs)

text \<open>
  Claim C9. A device first seen reachable, with no stored status, gets no "back ONLINE"
  notification and the status "online" is stored. The code departs from this through the
  same defect as for claim C1: when the save raises after "online" has been set, the
  handler for an unreachable device runs. On the concrete site, with nothing stored, a
  terminal that answers and a save that raises once, the check makes an "OFFLINE"
  notification attempt, leaves "offline" in the store and returns \<^verbatim>\<open>False\<close>.
\<close>

theorem first_reachable_with_failing_save_stored_offline:
  "db first_seen_world (status_key terminal) = None
   \<and> fst (probe terminal first_seen_world) = Returns ()
   \<and> notifications first_seen_world = []
   \<and> fst (check_device_online_status site_config terminal first_seen_world) = Returns False
   \<and> notifications (snd (check_device_online_status site_config terminal first_seen_world))
       = [Notify Offline (Some ''1'') (Some ''10.0.0.7'')]
   \<and> db (snd (check_device_online_status site_config terminal first_seen_world))
        (status_key terminal) = Some (Str ''offline'')"
  by (simp add: run_defs sync_defs)

text \<open>
  Claim C3 says that for a device found unreachable whose stored status is not "offline"
  the check stores "offline" and sends an "OFFLINE" notification. The check hands the
  message to the notifier, and the notifier sends nothing when the notifications are
  switched off: on the concrete site with \<^verbatim>\<open>ENABLE_CHAT_NOTIFICATIONS\<close> false, nothing
  stored and a terminal that does not answer, "offline" is stored and no POST is made.
\<close>

theorem unreachable_notifications_disabled_counterexample:
  "fst (probe terminal silent_world) = Raises
   \<and> db silent_world (status_key terminal) \<noteq> Some (Str ''offline'')
   \<and> db (snd (check_device_online_status
               (site_config\<lparr>attr_ENABLE_CHAT_NOTIFICATIONS := Some False\<rparr>)
               terminal silent_world)) (status_key terminal) = Some (Str ''offline'')
   \<and> filter is_http_post
        (events (snd (check_device_online_status
                        (site_config\<lparr>attr_ENABLE_CHAT_NOTIFICATIONS := Some False\<rparr>)
                        terminal silent_world))) = []"
  by (simp add: run_defs sync_defs)

text \<open>
  Claim C3 as amended. For a device found unreachable (the connect or the disconnect of
  the probe raises) whose stored status is not "offline", the absent status included,
  \<^verbatim>\<open>check_device_online_status\<close> hands "OFFLINE" to the notifier exactly once, then sets
  the status of the device to "offline" (the only key written) and calls the save of the
  store as its last action. The notifier posts the message to the webhook, once, exactly
  when the notifications are enabled and the webhook is set, and posts nothing otherwise.
  The check returns \<^verbatim>\<open>False\<close> unless that save raises, in which case the exception leaves
  the check.
\<close>

theorem unreachable_stores_offline_and_notifies:
  assumes unreachable: "fst (probe dev w) = Raises"
      and previous: "db w (status_key dev) \<noteq> Some (Str ''offline'')"
      and after: "w' = snd (check_device_online_status cfg dev w)"
  shows "db w' (status_key dev) = Some (Str ''offline'')
       \<and> keys_written w w' = [status_key dev]
       \<and> (\<exists>es. new_events w w' = es @ [StoreSet (status_key dev) (Str ''offline''), StoreSave])
       \<and> notifications w' =
           notifications w @ [Notify Offline (Some (device_id dev)) (Some (ip dev))]
       \<and> filter is_http_post (new_events w w') =
           (if ENABLE_CHAT_NOTIFICATIONS cfg \<and> truthy (GOOGLE_CHAT_WEBHOOK cfg)
            then [HttpPost (text_of (GOOGLE_CHAT_WEBHOOK cfg))
                    (device_payload dev (fst (now w)) Offline)]
            else [])
       \<and> fst (check_device_online_status cfg dev w) =
           (case saves w of [] \<Rightarrow> Returns False
            | ok # rest \<Rightarrow> if ok then Returns False else Raises)"
proof -
  let ?p = "snd (probe dev w)"
  let ?s = "snd (send_google_chat_message cfg Offline (Some (device_id dev)) (Some (ip dev)) ?p)"
  have w': "w' = snd (device_is_offline cfg dev ?p)"
    unfolding after by (simp add: check_unreachable [OF unreachable])
  have p: "db ?p (status_key dev) \<noteq> Some (Str ''offline'')"
    using previous by simp
  have db: "db w' (status_key dev) = Some (Str ''offline'')"
    unfolding w' using p by (simp add: device_is_offline_db)
  have "step (check_event dev) ?p w'"
    unfolding w' by (rule step_device_is_offline)
  from keys_written_trans [OF step_probe this]
  have keys: "keys_written w w' = [status_key dev]"
    unfolding w' using p by (simp add: device_is_offline_keys_written)
  have new: "new_events w w' = new_events w ?p @ new_events ?p ?s
      @ [StoreSet (status_key dev) (Str ''offline''), StoreSave]"
    unfolding after
    by (simp add: check_unreachable_new_events [OF unreachable]
          device_is_offline_new_events [OF p])
  then have last: "\<exists>es. new_events w w' =
      es @ [StoreSet (status_key dev) (Str ''offline''), StoreSave]"
    by (metis append.assoc)
  have ntf: "notifications w' =
      notifications w @ [Notify Offline (Some (device_id dev)) (Some (ip dev))]"
    unfolding w' using p by (simp add: device_is_offline_notifications)
  have probe: "filter is_http_post (new_events w ?p) = []"
    using probe_new_events [of dev w]
    by (auto simp add: filter_empty_conv list_all_iff)
  have posts: "filter is_http_post (new_events w w') =
      (if ENABLE_CHAT_NOTIFICATIONS cfg \<and> truthy (GOOGLE_CHAT_WEBHOOK cfg)
       then [HttpPost (text_of (GOOGLE_CHAT_WEBHOOK cfg))
               (device_payload dev (fst (now w)) Offline)]
       else [])"
    unfolding new using probe send_posts [of ?p cfg Offline dev]
    by simp
  have res: "fst (check_device_online_status cfg dev w) =
      (case saves w of [] \<Rightarrow> Returns False
       | ok # rest \<Rightarrow> if ok then Returns False else Raises)"
    using fst_device_is_offline_saves [OF p, of cfg]
    by (simp add: check_unreachable [OF unreachable])
  show ?thesis
    using db keys last ntf posts res by blast
qed

theorem unreachable_stores_offline_and_notifies_witness:
  "fst (probe terminal (silent_world\<lparr>clock := [1000000000]\<rparr>)) = Raises
   \<and> db (silent_world\<lparr>clock := [1000000000]\<rparr>) (status_key terminal) \<noteq> Some (Str ''offline'')
   \<and> db (snd (check_device_online_status site_config terminal
               (silent_world\<lparr>clock := [1000000000]\<rparr>))) (status_key terminal)
       = Some (Str ''offline'')
   \<and> filter is_http_post
        (new_events (silent_world\<lparr>clock := [1000000000]\<rparr>)
           (snd (check_device_online_status site_config terminal
                   (silent_world\<lparr>clock := [1000000000]\<rparr>))))
       = [HttpPost ''https://chat.test/hook'' (DeviceAlert ''1'' ''10.0.0.7'' 1000000000 Offline)]
   \<and> fst (check_device_online_status site_config terminal
            (silent_world\<lparr>clock := [1000000000]\<rparr>)) = Returns False"
proof -
  let ?v = "silent_world\<lparr>clock := [1000000000]\<rparr>"
  have h1: "fst (probe terminal ?v) = Raises"
    by (simp add: run_defs)
  have h2: "db ?v (status_key terminal) \<noteq> Some (Str ''offline'')"
    by (simp add: run_defs)
  have e1: "ENABLE_CHAT_NOTIFICATIONS site_config \<and> truthy (GOOGLE_CHAT_WEBHOOK site_config)"
    by (simp add: run_defs)
  have e2: "text_of (GOOGLE_CHAT_WEBHOOK site_config) = ''https://chat.test/hook''"
    by (simp add: run_defs)
  have e3: "device_payload terminal (fst (now ?v)) Offline
      = DeviceAlert ''1'' ''10.0.0.7'' 1000000000 Offline"
    by (simp add: run_defs)
  have e4: "saves ?v = []"
    by (simp add: run_defs)
  note t = unreachable_stores_offline_and_notifies [OF h1 h2 refl, of site_config]
  have c1: "db (snd (check_device_online_status site_config terminal ?v)) (status_key terminal)
      = Some (Str ''offline'')"
    using t by blast
  have c2: "filter is_http_post
        (new_events ?v (snd (check_device_online_status site_config terminal ?v)))
      = [HttpPost ''https://chat.test/hook'' (DeviceAlert ''1'' ''10.0.0.7'' 1000000000 Offline)]"
    using t e1 e2 e3 by simp
  have c3: "fst (check_device_online_status site_config terminal ?v) = Returns False"
    using t e4 by simp
  show ?thesis
    using h1 h2 c1 c2 c3 by blast
qed

subsection \<open>The notifier\<close>

text \<open>
  Claim C8. \<^verbatim>\<open>send_google_chat_message\<close> always returns a truth value (the model has no
  other outcome for it: the one call that can raise, the POST, is inside the \<^verbatim>\<open>try\<close>).
  With notifications disabled or no webhook set it returns false without posting; with
  both set it returns false when the POST raises and, when the POST answers with a status
  code, true exactly when that code is 200.
\<close>

theorem send_google_chat_message_result:
  "(\<not> ENABLE_CHAT_NOTIFICATIONS cfg \<or> \<not> truthy (GOOGLE_CHAT_WEBHOOK cfg) \<longrightarrow>
      send_google_chat_message cfg m i a w = (False, emit (Notify m i a) w))
   \<and> (ENABLE_CHAT_NOTIFICATIONS cfg \<and> truthy (GOOGLE_CHAT_WEBHOOK cfg) \<longrightarrow>
        (\<forall>c rest. posts w = Returns c # rest \<longrightarrow>
           fst (send_google_chat_message cfg m i a w) = (c = 200))
      \<and> (\<forall>rest. posts w = Raises # rest \<longrightarrow> \<not> fst (send_google_chat_message cfg m i a w))
      \<and> (posts w = [] \<longrightarrow> \<not> fst (send_google_chat_message cfg m i a w)))
   \<and> (fst (send_google_chat_message cfg m i a w) \<longleftrightarrow>
        ENABLE_CHAT_NOTIFICATIONS cfg \<and> truthy (GOOGLE_CHAT_WEBHOOK cfg)
        \<and> (\<exists>rest. posts w = Returns 200 # rest))"
proof -
  have "fst (send_google_chat_message cfg m i a w) =
     (ENABLE_CHAT_NOTIFICATIONS cfg \<and> truthy (GOOGLE_CHAT_WEBHOOK cfg) \<and>
      (case posts w of Returns c # _ \<Rightarrow> c = 200 | _ \<Rightarrow> False))"
    by (rule fst_send)
  moreover have "\<not> ENABLE_CHAT_NOTIFICATIONS cfg \<or> \<not> truthy (GOOGLE_CHAT_WEBHOOK cfg) \<Longrightarrow>
      snd (send_google_chat_message cfg m i a w) = emit (Notify m i a) w"
    by (simp add: snd_send)
  ultimately show ?thesis
    by (auto simp add: prod_eq_iff split: list.splits outcome.splits)
qed

theorem send_google_chat_message_result_witness:
  "ENABLE_CHAT_NOTIFICATIONS site_config \<and> truthy (GOOGLE_CHAT_WEBHOOK site_config)
   \<and> fst (send_google_chat_message site_config Offline (Some ''1'') (Some ''10.0.0.7'')
            (silent_world\<lparr>posts := [Returns 200]\<rparr>))
   \<and> \<not> fst (send_google_chat_message site_config Offline (Some ''1'') (Some ''10.0.0.7'')
              (silent_world\<lparr>posts := [Returns 503]\<rparr>))
   \<and> \<not> fst (send_google_chat_message site_config Offline (Some ''1'') (Some ''10.0.0.7'')
              (silent_world\<lparr>posts := [Raises]\<rparr>))
   \<and> send_google_chat_message (site_config\<lparr>attr_ENABLE_CHAT_NOTIFICATIONS := Some False\<rparr>)
        Offline (Some ''1'') (Some ''10.0.0.7'') (silent_world\<lparr>posts := [Returns 200]\<rparr>)
       = (False, emit (Notify Offline (Some ''1'') (Some ''10.0.0.7''))
                   (silent_world\<lparr>posts := [Returns 200]\<rparr>))"
proof -
  have h: "ENABLE_CHAT_NOTIFICATIONS site_config" "truthy (GOOGLE_CHAT_WEBHOOK site_config)"
    "\<not> ENABLE_CHAT_NOTIFICATIONS (site_config\<lparr>attr_ENABLE_CHAT_NOTIFICATIONS := Some False\<rparr>)"
    by (simp_all add: site_config_def ENABLE_CHAT_NOTIFICATIONS_def GOOGLE_CHAT_WEBHOOK_def
          truthy_def)
  have p: "posts (silent_world\<lparr>posts := [Returns 200]\<rparr>) = [Returns 200]"
    "posts (silent_world\<lparr>posts := [Returns 503]\<rparr>) = [Returns 503]"
    "posts (silent_world\<lparr>posts := [Raises]\<rparr>) = [Raises]"
    by simp_all
  show ?thesis
    using h p
      send_google_chat_message_result [of site_config Offline "Some ''1''" "Some ''10.0.0.7''"
        "silent_world\<lparr>posts := [Returns 200]\<rparr>"]
      send_google_chat_message_result [of site_config Offline "Some ''1''" "Some ''10.0.0.7''"
        "silent_world\<lparr>posts := [Returns 503]\<rparr>"]
      send_google_chat_message_result [of site_config Offline "Some ''1''" "Some ''10.0.0.7''"
        "silent_world\<lparr>posts := [Raises]\<rparr>"]
      send_google_chat_message_result [of
        "site_config\<lparr>attr_ENABLE_CHAT_NOTIFICATIONS := Some False\<rparr>" Offline "Some ''1''"
        "Some ''10.0.0.7''" "silent_world\<lparr>posts := [Returns 200]\<rparr>"]
    by simp
qed


subsection \<open>The sync engine\<close>




text \<open>
  Claim C7. In the same setting, if the first reading is off by more than the tolerance,
  the correction goes through, and the reading taken after the pause is still off by more
  than the tolerance, then \<^verbatim>\<open>sync_device_time\<close> returns \<^verbatim>\<open>False\<close>; the commands sent to
  devices in the whole turn are the one disable, set-time, enable sequence of that
  correction (nothing is set back and nothing is tried again); and the turn ends there,
  without writing the \<^verbatim>\<open>_last_time_sync\<close> key.
\<close>

theorem failed_verification_no_retry:
  assumes first: "check_device_online_status cfg dev v = (Returns True, w)"
      and again: "check_device_online_status cfg dev w = (Returns True, w0)"
      and clock: "now w0 = (system_time, w1)"
      and reading: "get_device_time (ip dev) w1 = (Returns (Some device_time), w2)"
      and drift: "\<bar>system_time - device_time\<bar> > tolerance_us cfg"
      and correction: "set_device_time (ip dev) system_time w2 = (Returns True, w3)"
      and notice: "w4 = (if \<bar>system_time - device_time\<bar> > significant_us
                         then snd (send_google_chat_message cfg
                                (TimeSynchronized \<bar>system_time - device_time\<bar>)
                                (Some (device_id dev)) (Some (ip dev)) w3)
                         else w3)"
      and verification:
        "get_device_time (ip dev) (sleep 2 w4) = (Returns (Some updated_device_time), w6)"
      and still_off: "\<bar>system_time - updated_device_time\<bar> > tolerance_us cfg"
  shows "sync_device_time cfg dev w = (Returns (Some False), w6)
       \<and> filter is_device_write (new_events v w6) =
           [DisableDevice (ip dev), SetTime (ip dev) system_time, EnableDevice (ip dev)]
       \<and> sync_all_devices_body cfg dev v = w6
       \<and> last_time_sync_key dev \<notin> set (keys_written v w6)"
proof -
  let ?Q = "\<lambda>e. \<not> is_device_write e"
  let ?T = "\<lambda>e. True"
  have sync: "sync_device_time cfg dev w = (Returns (Some False), w6)"
    using drift still_off verification
    by (simp add: sync_device_time_def again clock reading correction notice [symmetric] Let_def)
  have s1: "step ?Q v w"
    by (rule step_mono [OF step_check' [OF first]]) (rule no_write_check)
  have s2: "step ?Q w w0"
    by (rule step_mono [OF step_check' [OF again]]) (rule no_write_check)
  have s3: "step ?Q w0 w1"
    by (rule step_now' [OF clock])
  have s4: "step ?Q w1 w2"
    by (rule step_mono [OF step_get_device_time' [OF reading]]) (rule no_write_read)
  have before: "step ?Q v w2"
    by (rule step_trans [OF s1 step_trans [OF s2 step_trans [OF s3 s4]]])
  have during: "step (write_event (ip dev) system_time) w2 w3"
    by (rule step_set_device_time' [OF correction])
  have s5: "step ?Q w3 w4"
    unfolding notice
    using step_mono [OF step_send, of ?Q w3 cfg] no_write_notify
    by (simp add: step_refl)
  have s6: "step ?Q w4 (sleep 2 w4)"
    by (rule step_sleep) simp
  have s7: "step ?Q (sleep 2 w4) w6"
    by (rule step_mono [OF step_get_device_time' [OF verification]]) (rule no_write_read)
  have after: "step ?Q w3 w6"
    by (rule step_trans [OF s5 step_trans [OF s6 s7]])
  have upto: "step ?T v w3"
    by (rule step_trans [OF step_mono [OF before] step_mono [OF during]]) simp_all
  have "new_events v w6 = new_events v w3 @ new_events w3 w6"
    by (rule new_events_trans [OF upto after])
  also have "new_events v w3 = new_events v w2 @ new_events w2 w3"
    by (rule new_events_trans [OF before during])
  finally have "filter is_device_write (new_events v w6) =
      filter is_device_write (new_events v w2) @ filter is_device_write (new_events w2 w3)
      @ filter is_device_write (new_events w3 w6)"
    by simp
  moreover have "filter is_device_write (new_events v w2) = []"
    by (rule filter_new_events_empty [OF before]) simp
  moreover have "filter is_device_write (new_events w3 w6) = []"
    by (rule filter_new_events_empty [OF after]) simp
  moreover have "new_events w2 w3 =
      [Connect (ip dev) 30, DisableDevice (ip dev), SetTime (ip dev) system_time,
       EnableDevice (ip dev), Disconnect (ip dev)]"
    by (rule set_device_time_returns(2) [OF correction])
  ultimately have writes: "filter is_device_write (new_events v w6) =
      [DisableDevice (ip dev), SetTime (ip dev) system_time, EnableDevice (ip dev)]"
    by simp
  have body: "sync_all_devices_body cfg dev v = w6"
    by (simp add: sync_all_devices_body_def first sync)
  have "step (sync_event dev) v w"
    by (rule step_mono [OF step_check' [OF first]]) (simp add: sync_event_def)
  moreover have "step (sync_event dev) w w6"
    using step_sync_device_time [of dev w cfg] sync by simp
  ultimately have "step (sync_event dev) v w6"
    by (rule step_trans)
  then have "set (keys_written v w6) \<subseteq> {status_key dev}"
    by (rule keys_written_subset) (simp add: sync_event_keys)
  then have keys: "last_time_sync_key dev \<notin> set (keys_written v w6)"
    using status_key_neq_last_time_sync_key [of dev dev] by auto
  show ?thesis
    using sync writes body keys by simp
qed

theorem failed_verification_no_retry_witness:
  "fst (check_device_online_status site_config terminal stubborn_world) = Returns True
   \<and> fst (sync_device_time site_config terminal
        (snd (check_device_online_status site_config terminal stubborn_world))) = Returns (Some False)
   \<and> filter is_device_write
        (events (sync_all_devices_body site_config terminal stubborn_world))
       = [DisableDevice ''10.0.0.7'', SetTime ''10.0.0.7'' 1000000000, EnableDevice ''10.0.0.7'']
   \<and> db (sync_all_devices_body site_config terminal stubborn_world) (last_time_sync_key terminal)
       = None"
proof -
  let ?a = "snd (check_device_online_status site_config terminal stubborn_world)"
  let ?b = "snd (check_device_online_status site_config terminal ?a)"
  let ?c = "snd (now ?b)"
  let ?d = "snd (get_device_time (ip terminal) ?c)"
  let ?e = "snd (set_device_time (ip terminal) 1000000000 ?d)"
  let ?f = "snd (send_google_chat_message site_config (TimeSynchronized 400000000)
                (Some (device_id terminal)) (Some (ip terminal)) ?e)"
  let ?g = "snd (get_device_time (ip terminal) (sleep 2 ?f))"
  have h1: "check_device_online_status site_config terminal stubborn_world = (Returns True, ?a)"
    by (simp add: run_defs sync_defs)
  have h2: "check_device_online_status site_config terminal ?a = (Returns True, ?b)"
    by (simp add: run_defs sync_defs)
  have h3: "now ?b = (1000000000, ?c)"
    by (simp add: run_defs sync_defs)
  have h4: "get_device_time (ip terminal) ?c = (Returns (Some 600000000), ?d)"
    by (simp add: run_defs sync_defs)
  have h5: "\<bar>1000000000 - 600000000\<bar> > tolerance_us site_config"
    by (simp add: run_defs)
  have h6: "set_device_time (ip terminal) 1000000000 ?d = (Returns True, ?e)"
    by (simp add: run_defs sync_defs)
  have h7: "?f = (if \<bar>1000000000 - 600000000\<bar> > significant_us
                   then snd (send_google_chat_message site_config
                          (TimeSynchronized \<bar>1000000000 - 600000000\<bar>)
                          (Some (device_id terminal)) (Some (ip terminal)) ?e)
                   else ?e)"
    by (simp add: significant_us_def)
  have h8: "get_device_time (ip terminal) (sleep 2 ?f) = (Returns (Some 900000000), ?g)"
    by (simp add: run_defs sync_defs)
  have h9: "\<bar>1000000000 - 900000000\<bar> > tolerance_us site_config"
    by (simp add: run_defs)
  have e: "events stubborn_world = []" "db stubborn_world (last_time_sync_key terminal) = None"
    by (simp_all add: run_defs sync_defs)
  note t = failed_verification_no_retry [OF h1 h2 h3 h4 h5 h6 h7 h8 h9]
  have ipt: "ip terminal = ''10.0.0.7''"
    by (simp add: terminal_def)
  have c1: "fst (check_device_online_status site_config terminal stubborn_world) = Returns True"
    using h1 by (simp add: prod_eq_iff)
  have c2: "fst (sync_device_time site_config terminal ?a) = Returns (Some False)"
    using t by simp
  have c3: "filter is_device_write
      (events (sync_all_devices_body site_config terminal stubborn_world)) =
      [DisableDevice ''10.0.0.7'', SetTime ''10.0.0.7'' 1000000000, EnableDevice ''10.0.0.7'']"
    using t e(1) by (simp add: new_events_def ipt)
  have "db ?g (last_time_sync_key terminal) = None"
    by (simp add: run_defs sync_defs)
  then have c4: "db (sync_all_devices_body site_config terminal stubborn_world)
      (last_time_sync_key terminal) = None"
    using t by simp
  show ?thesis
    using c1 c2 c3 c4 by blast
qed


text \<open>
  Claim C5. One turn of the loop of \<^verbatim>\<open>sync_all_devices\<close> for a device writes the
  \<^verbatim>\<open>_last_time_sync\<close> key of that device only if both reachability checks of the turn found
  the device reachable, its clock was read, and either that reading was within the
  tolerance of the system time, or the correction went through and the reading taken after
  the pause was within the tolerance. In every turn that does not write the key its value
  is what it was before; and the turn of one device neither writes nor changes the key of
  a device with another id. Within a whole cycle the key of a device is written only in
  the turn of a configured device with that id.
\<close>

theorem last_time_sync_written_only_when_in_sync:
  "(last_time_sync_key dev \<in> set (keys_written v (sync_all_devices_body cfg dev v)) \<longrightarrow>
      (\<exists>w w0 system_time w1 device_time w2.
          check_device_online_status cfg dev v = (Returns True, w) \<and>
          check_device_online_status cfg dev w = (Returns True, w0) \<and>
          now w0 = (system_time, w1) \<and>
          get_device_time (ip dev) w1 = (Returns (Some device_time), w2) \<and>
          (\<bar>system_time - device_time\<bar> \<le> tolerance_us cfg \<or>
           (\<exists>w3 updated_device_time w6.
              set_device_time (ip dev) system_time w2 = (Returns True, w3) \<and>
              get_device_time (ip dev)
                (sleep 2 (if \<bar>system_time - device_time\<bar> > significant_us
                          then snd (send_google_chat_message cfg
                                 (TimeSynchronized \<bar>system_time - device_time\<bar>)
                                 (Some (device_id dev)) (Some (ip dev)) w3)
                          else w3))
                = (Returns (Some updated_device_time), w6) \<and>
              \<bar>system_time - updated_device_time\<bar> \<le> tolerance_us cfg))))
   \<and> (last_time_sync_key dev \<notin> set (keys_written v (sync_all_devices_body cfg dev v)) \<longrightarrow>
        db (sync_all_devices_body cfg dev v) (last_time_sync_key dev)
          = db v (last_time_sync_key dev))
   \<and> (\<forall>d. device_id d \<noteq> device_id dev \<longrightarrow>
          last_time_sync_key d \<notin> set (keys_written v (sync_all_devices_body cfg dev v))
        \<and> db (sync_all_devices_body cfg dev v) (last_time_sync_key d)
            = db v (last_time_sync_key d))
   \<and> (last_time_sync_key dev \<in> set (keys_written v (snd (sync_all_devices cfg v))) \<longrightarrow>
        (\<exists>ds1 d ds2. devices cfg = ds1 @ d # ds2 \<and> device_id d = device_id dev \<and>
           last_time_sync_key dev \<in>
             set (keys_written (fold (sync_all_devices_body cfg) ds1 v)
                    (sync_all_devices_body cfg d (fold (sync_all_devices_body cfg) ds1 v)))))"
proof (intro conjI impI allI)
  assume written: "last_time_sync_key dev \<in> set (keys_written v (sync_all_devices_body cfg dev v))"
  let ?w = "snd (check_device_online_status cfg dev v)"
  have "\<not> (fst (check_device_online_status cfg dev v) = Returns True \<longrightarrow>
           fst (sync_device_time cfg dev ?w) \<noteq> Returns (Some True))"
  proof
    assume "fst (check_device_online_status cfg dev v) = Returns True \<longrightarrow>
            fst (sync_device_time cfg dev ?w) \<noteq> Returns (Some True)"
    from body_keys_without_sync [OF this] written
    show False
      using status_key_neq_last_time_sync_key [of dev dev] by auto
  qed
  then have r: "check_device_online_status cfg dev v = (Returns True, ?w)"
    and ok: "fst (sync_device_time cfg dev ?w) = Returns (Some True)"
    by (simp_all add: prod_eq_iff)
  from sync_device_time_Some_True [OF ok] r
  show "\<exists>w w0 system_time w1 device_time w2.
          check_device_online_status cfg dev v = (Returns True, w) \<and>
          check_device_online_status cfg dev w = (Returns True, w0) \<and>
          now w0 = (system_time, w1) \<and>
          get_device_time (ip dev) w1 = (Returns (Some device_time), w2) \<and>
          (\<bar>system_time - device_time\<bar> \<le> tolerance_us cfg \<or>
           (\<exists>w3 updated_device_time w6.
              set_device_time (ip dev) system_time w2 = (Returns True, w3) \<and>
              get_device_time (ip dev)
                (sleep 2 (if \<bar>system_time - device_time\<bar> > significant_us
                          then snd (send_google_chat_message cfg
                                 (TimeSynchronized \<bar>system_time - device_time\<bar>)
                                 (Some (device_id dev)) (Some (ip dev)) w3)
                          else w3))
                = (Returns (Some updated_device_time), w6) \<and>
              \<bar>system_time - updated_device_time\<bar> \<le> tolerance_us cfg))"
    by blast
next
  assume "last_time_sync_key dev \<notin> set (keys_written v (sync_all_devices_body cfg dev v))"
  then show "db (sync_all_devices_body cfg dev v) (last_time_sync_key dev)
      = db v (last_time_sync_key dev)"
    by (rule step_frame [OF step_sync_all_devices_body])
next
  fix d :: device
  assume d: "device_id d \<noteq> device_id dev"
  have "set (keys_written v (sync_all_devices_body cfg dev v))
      \<subseteq> {status_key dev, last_time_sync_key dev}"
    by (rule keys_written_subset [OF step_sync_all_devices_body])
       (auto dest: body_event_keys)
  then show notin: "last_time_sync_key d \<notin> set (keys_written v (sync_all_devices_body cfg dev v))"
    using d status_key_neq_last_time_sync_key [of dev d] last_time_sync_key_inj [of d dev]
    by auto
  then show "db (sync_all_devices_body cfg dev v) (last_time_sync_key d)
      = db v (last_time_sync_key d)"
    by (rule step_frame [OF step_sync_all_devices_body])
next
  assume "last_time_sync_key dev \<in> set (keys_written v (snd (sync_all_devices cfg v)))"
  then show "\<exists>ds1 d ds2. devices cfg = ds1 @ d # ds2 \<and> device_id d = device_id dev \<and>
           last_time_sync_key dev \<in>
             set (keys_written (fold (sync_all_devices_body cfg) ds1 v)
                    (sync_all_devices_body cfg d (fold (sync_all_devices_body cfg) ds1 v)))"
    by (rule sync_all_devices_key_turn)
qed

theorem last_time_sync_written_only_when_in_sync_witness:
  "last_time_sync_key terminal
     \<in> set (keys_written in_sync_world (sync_all_devices_body site_config terminal in_sync_world))
   \<and> fst (check_device_online_status site_config terminal in_sync_world) = Returns True
   \<and> last_time_sync_key terminal
     \<notin> set (keys_written stubborn_world (sync_all_devices_body site_config terminal stubborn_world))
   \<and> db (sync_all_devices_body site_config terminal stubborn_world) (last_time_sync_key terminal)
       = db stubborn_world (last_time_sync_key terminal)"
proof -
  note t1 = last_time_sync_written_only_when_in_sync [of terminal in_sync_world site_config]
  note t2 = last_time_sync_written_only_when_in_sync [of terminal stubborn_world site_config]
  have h1: "last_time_sync_key terminal
     \<in> set (keys_written in_sync_world (sync_all_devices_body site_config terminal in_sync_world))"
    by (simp add: run_defs sync_defs List.map_filter_def)
  have h2: "last_time_sync_key terminal
     \<notin> set (keys_written stubborn_world (sync_all_devices_body site_config terminal stubborn_world))"
    by (simp add: run_defs sync_defs List.map_filter_def)
  from t1 h1 have c1:
    "fst (check_device_online_status site_config terminal in_sync_world) = Returns True"
    by auto
  from t2 h2 have c2: "db (sync_all_devices_body site_config terminal stubborn_world)
      (last_time_sync_key terminal) = db stubborn_world (last_time_sync_key terminal)"
    by blast
  show ?thesis
    using h1 h2 c1 c2 by blast
qed


subsection \<open>A device that is unreachable at its first check\<close>

text \<open>
  Claim C2 says that for a device found unreachable with no stored status the cycle stores
  "offline", sends no notification and skips the time sync. The handler notifies whenever
  the stored status is not "offline", and an absent status is not: on the concrete site
  with nothing stored and a terminal that does not answer, one cycle makes one "OFFLINE"
  notification attempt.
\<close>

theorem first_unreachable_notifies_counterexample:
  "db silent_world (status_key terminal) = None
   \<and> fst (probe terminal silent_world) = Raises
   \<and> fst (check_device_online_status site_config terminal silent_world) = Returns False
   \<and> notifications silent_world = []
   \<and> notifications (snd (sync_all_devices site_config silent_world))
       = [Notify Offline (Some ''1'') (Some ''10.0.0.7'')]"
  by (simp add: run_defs sync_defs sync_all_devices_def)

text \<open>
  Claim C2 as amended. For a device found unreachable (the connect or the disconnect of
  the probe raises) with no stored status, the check stores "offline" (and writes no
  other key) and makes exactly one "OFFLINE" notification attempt; \<^verbatim>\<open>sync_device_time\<close>
  ends with the check, returning \<^verbatim>\<open>False\<close> when the check returns, and so does the turn of
  the loop of \<^verbatim>\<open>sync_all_devices\<close>: the only events are those of the check, and no device
  clock is read or set.
\<close>

theorem first_unreachable_notifies_and_skips_sync:
  assumes unknown: "db v (status_key dev) = None"
      and unreachable: "fst (probe dev v) = Raises"
      and after: "w = snd (check_device_online_status cfg dev v)"
  shows "db w (status_key dev) = Some (Str ''offline'')
       \<and> notifications w = notifications v @ [Notify Offline (Some (device_id dev)) (Some (ip dev))]
       \<and> fst (check_device_online_status cfg dev v) \<noteq> Returns True
       \<and> snd (sync_device_time cfg dev v) = w
       \<and> fst (sync_device_time cfg dev v) \<noteq> Returns (Some True)
       \<and> (fst (check_device_online_status cfg dev v) = Returns False \<longrightarrow>
            sync_device_time cfg dev v = (Returns (Some False), w))
       \<and> sync_all_devices_body cfg dev v = w
       \<and> list_all (check_event dev) (new_events v w)
       \<and> keys_written v w = [status_key dev]"
proof -
  let ?p = "snd (probe dev v)"
  obtain r where c: "check_device_online_status cfg dev v = (r, w)"
    using after by (simp add: prod_eq_iff)
  have w: "w = snd (device_is_offline cfg dev ?p)"
    unfolding after by (simp add: check_unreachable [OF unreachable])
  have r: "r \<noteq> Returns True"
    using check_never_reachable_when_unreachable [OF unreachable, of cfg] c by simp
  have p: "db ?p (status_key dev) = None"
    using unknown by simp
  have db: "db w (status_key dev) = Some (Str ''offline'')"
    unfolding w using p by (simp add: device_is_offline_db)
  have ntf: "notifications w =
      notifications v @ [Notify Offline (Some (device_id dev)) (Some (ip dev))]"
    unfolding w using p by (simp add: device_is_offline_notifications)
  have sync: "snd (sync_device_time cfg dev v) = w"
      "fst (sync_device_time cfg dev v) \<noteq> Returns (Some True)"
      "r = Returns False \<longrightarrow> sync_device_time cfg dev v = (Returns (Some False), w)"
    using r by (cases r; auto simp add: sync_device_time_def c split: bool.splits)+
  have body: "sync_all_devices_body cfg dev v = w"
    using r by (cases r) (auto simp add: sync_all_devices_body_def c split: bool.splits)
  have events: "list_all (check_event dev) (new_events v w)"
    by (rule stepD [OF step_check' [OF c]])
  have "step (check_event dev) ?p w"
    unfolding w by (rule step_device_is_offline)
  from keys_written_trans [OF step_probe this]
  have keys: "keys_written v w = [status_key dev]"
    unfolding w using p by (simp add: device_is_offline_keys_written)
  show ?thesis
    using db ntf r sync body events keys c by simp
qed

theorem first_unreachable_notifies_and_skips_sync_witness:
  "db silent_world (status_key terminal) = None
   \<and> fst (probe terminal silent_world) = Raises
   \<and> sync_device_time site_config terminal silent_world
       = (Returns (Some False), snd (check_device_online_status site_config terminal silent_world))
   \<and> keys_written silent_world (snd (check_device_online_status site_config terminal silent_world))
       = [''1_online_status'']"
proof -
  have h1: "db silent_world (status_key terminal) = None"
    by (simp add: run_defs)
  have h2: "fst (probe terminal silent_world) = Raises"
    by (simp add: run_defs)
  have h3: "fst (check_device_online_status site_config terminal silent_world) = Returns False"
    by (simp add: run_defs)
  have k: "status_key terminal = ''1_online_status''"
    by (simp add: run_defs)
  note t = first_unreachable_notifies_and_skips_sync [OF h1 h2 refl, of site_config]
  have c3: "sync_device_time site_config terminal silent_world
       = (Returns (Some False), snd (check_device_online_status site_config terminal silent_world))"
    using t h3 by blast
  have c4: "keys_written silent_world
       (snd (check_device_online_status site_config terminal silent_world)) = [''1_online_status'']"
    using t k by simp
  show ?thesis
    using h1 h2 c3 c4 by blast
qed

subsection \<open>The \<^verbatim>\<open>check\<close> mode\<close>

text \<open>
  Claim C4 says that the \<^verbatim>\<open>check\<close> mode never mutates persisted state and never writes a
  device clock. The mode calls \<^verbatim>\<open>check_device_online_status\<close>, which handles status
  changes: on the concrete site with nothing stored and a terminal that does not answer,
  the mode stores "offline" under the status key of the terminal (and attempts the
  notification that goes with it).
\<close>

theorem check_mode_mutates_status_counterexample:
  "db silent_world (status_key terminal) = None
   \<and> db (main_check site_config silent_world) (status_key terminal) = Some (Str ''offline'')
   \<and> keys_written silent_world (main_check site_config silent_world) = [''1_online_status'']
   \<and> notifications (main_check site_config silent_world)
       = [Notify Offline (Some ''1'') (Some ''10.0.0.7'')]"
  by (simp add: run_defs main_check_def main_check_body_def List.map_filter_def)

text \<open>
  Claim C4 as amended. The \<^verbatim>\<open>check\<close> mode never writes a device clock: it sends no disable,
  set-time or enable command, for every configured device and every outcome of the
  probes. The only keys of the status store it writes are the \<^verbatim>\<open>_online_status\<close> keys of
  the configured devices; every other key, the \<^verbatim>\<open>_last_time_sync\<close> keys and
  \<^verbatim>\<open>last_time_sync_run\<close> among them, keeps its value.
\<close>

theorem check_mode_writes_only_status_keys:
  "events (main_check cfg w) = events w @ new_events w (main_check cfg w)
   \<and> list_all (\<lambda>e. \<not> is_device_write e) (new_events w (main_check cfg w))
   \<and> set (keys_written w (main_check cfg w)) \<subseteq> status_key ` set (devices cfg)
   \<and> (\<forall>k. k \<notin> status_key ` set (devices cfg) \<longrightarrow> db (main_check cfg w) k = db w k)
   \<and> (\<forall>d. db (main_check cfg w) (last_time_sync_key d) = db w (last_time_sync_key d))
   \<and> db (main_check cfg w) ''last_time_sync_run'' = db w ''last_time_sync_run''"
proof -
  let ?w' = "main_check cfg w"
  note s = step_main_check [of cfg w]
  have ev: "events ?w' = events w @ new_events w ?w'"
    using s by (simp add: step_def)
  have nw: "list_all (\<lambda>e. \<not> is_device_write e) (new_events w ?w')"
    by (rule stepD [OF step_mono [OF s]]) (auto dest: main_check_event_no_write)
  have keys: "set (keys_written w ?w') \<subseteq> status_key ` set (devices cfg)"
    by (rule keys_written_subset [OF s]) (auto dest: main_check_event_keys)
  have frame: "db ?w' k = db w k" if "k \<notin> status_key ` set (devices cfg)" for k
    by (rule step_frame [OF s]) (use keys that in auto)
  have a: "last_time_sync_key d \<notin> status_key ` set (devices cfg)" for d
    by (metis imageE status_key_neq_last_time_sync_key)
  have b: "''last_time_sync_run'' \<notin> status_key ` set (devices cfg)"
    by (metis imageE run_key_neq_status_key)
  show ?thesis
    using ev nw keys frame a b by blast
qed

theorem check_mode_writes_only_status_keys_witness:
  "''2_online_status'' \<notin> status_key ` set (devices site_config)
   \<and> db (main_check site_config silent_world) ''2_online_status''
       = db silent_world ''2_online_status''
   \<and> filter is_device_write (events (main_check site_config silent_world)) = []"
proof -
  note t = check_mode_writes_only_status_keys [of site_config silent_world]
  have h: "''2_online_status'' \<notin> status_key ` set (devices site_config)"
    by (simp add: run_defs)
  have e: "events silent_world = []"
    by (simp add: run_defs)
  have c2: "db (main_check site_config silent_world) ''2_online_status''
       = db silent_world ''2_online_status''"
    using t h by blast
  have "list_all (\<lambda>e. \<not> is_device_write e)
      (new_events silent_world (main_check site_config silent_world))"
    using t by blast
  then have c3: "filter is_device_write (events (main_check site_config silent_world)) = []"
    using e by (simp add: new_events_def list_all_iff filter_empty_conv)
  show ?thesis
    using h c2 c3 by blast
qed


subsection \<open>The switch of the time sync\<close>

text \<open>
  Claim C10. With \<^verbatim>\<open>ENABLE_TIME_SYNC\<close> false, \<^verbatim>\<open>sync_all_devices\<close> returns at once and
  leaves the world as it was given: no probe, no notification, no write to the status
  store. With it true, the cycle always reaches its end (nothing in the loop escapes),
  where it stores the time of day under \<^verbatim>\<open>last_time_sync_run\<close> and calls the save of the
  store as its last two actions.
\<close>

theorem disabled_sync_does_nothing:
  "(\<not> ENABLE_TIME_SYNC cfg \<longrightarrow>
      sync_all_devices cfg w = (Returns (), w)
      \<and> new_events w (snd (sync_all_devices cfg w)) = [])
   \<and> (ENABLE_TIME_SYNC cfg \<longrightarrow>
        (\<exists>es. new_events w (snd (sync_all_devices cfg w)) =
           es @ [StoreSet ''last_time_sync_run''
                   (DateStr (fst (now (fold (sync_all_devices_body cfg) (devices cfg) w)))),
                 StoreSave])
        \<and> ''last_time_sync_run'' \<in> set (keys_written w (snd (sync_all_devices cfg w)))
        \<and> db (snd (sync_all_devices cfg w)) ''last_time_sync_run'' =
            Some (DateStr (fst (now (fold (sync_all_devices_body cfg) (devices cfg) w)))))"
proof (intro conjI impI)
  assume off: "\<not> ENABLE_TIME_SYNC cfg"
  then show "sync_all_devices cfg w = (Returns (), w)"
    by (simp add: sync_all_devices_def)
  then show "new_events w (snd (sync_all_devices cfg w)) = []"
    by simp
next
  assume on: "ENABLE_TIME_SYNC cfg"
  let ?w1 = "fold (sync_all_devices_body cfg) (devices cfg) w"
  let ?t = "fst (now ?w1)"
  have res: "sync_all_devices cfg w =
      status_save (status_set ''last_time_sync_run'' (DateStr ?t) (snd (now ?w1)))"
    using on by (simp add: sync_all_devices_def Let_def split_def)
  from step_sync_all_devices_loop [of w cfg]
  obtain es where es: "events ?w1 = events w @ es"
    by (rule stepE)
  have new: "new_events w (snd (sync_all_devices cfg w)) =
      es @ [StoreSet ''last_time_sync_run'' (DateStr ?t), StoreSave]"
    by (simp add: res new_events_def es)
  then show "\<exists>es. new_events w (snd (sync_all_devices cfg w)) =
      es @ [StoreSet ''last_time_sync_run'' (DateStr ?t), StoreSave]"
    by blast
  show "''last_time_sync_run'' \<in> set (keys_written w (snd (sync_all_devices cfg w)))"
    by (simp add: keys_written_def new List.map_filter_def)
  show "db (snd (sync_all_devices cfg w)) ''last_time_sync_run'' = Some (DateStr ?t)"
    by (simp add: res)
qed

theorem disabled_sync_does_nothing_witness:
  "\<not> ENABLE_TIME_SYNC (site_config\<lparr>attr_ENABLE_TIME_SYNC := Some False\<rparr>)
   \<and> sync_all_devices (site_config\<lparr>attr_ENABLE_TIME_SYNC := Some False\<rparr>) in_sync_world
       = (Returns (), in_sync_world)
   \<and> ENABLE_TIME_SYNC site_config
   \<and> db (snd (sync_all_devices site_config
              (in_sync_world\<lparr>clock := [1000000000, 1000000500, 1000000900]\<rparr>)))
        ''last_time_sync_run'' = Some (DateStr 1000000900)"
proof -
  let ?off = "site_config\<lparr>attr_ENABLE_TIME_SYNC := Some False\<rparr>"
  let ?v = "in_sync_world\<lparr>clock := [1000000000, 1000000500, 1000000900]\<rparr>"
  have h1: "\<not> ENABLE_TIME_SYNC ?off"
    by (simp add: ENABLE_TIME_SYNC_def)
  have h2: "ENABLE_TIME_SYNC site_config"
    by (simp add: ENABLE_TIME_SYNC_def site_config_def)
  have h3: "fst (now (fold (sync_all_devices_body site_config) (devices site_config) ?v))
      = 1000000900"
    by (simp add: run_defs sync_defs)
  have c1: "sync_all_devices ?off in_sync_world = (Returns (), in_sync_world)"
    using disabled_sync_does_nothing [of ?off in_sync_world] h1 by blast
  have c2: "db (snd (sync_all_devices site_config ?v)) ''last_time_sync_run''
      = Some (DateStr 1000000900)"
    using disabled_sync_does_nothing [of site_config ?v] h2 h3 by simp
  show ?thesis
    using h1 h2 c1 c2 by blast
qed


end
